theory Spec2Isabelle
  imports Complex_Main
begin

section \<open>Orbit MVP: the subscription lifecycle of \<open>src/server.js\<close>\<close>

text \<open>
  The repository holds three variants of one Express server. The embedding follows
  \<open>src/server.js\<close> (status \<open>ACTIVE\<close>/\<open>PAUSED\<close>, \<open>dueAt\<close>, \<open>pausedAt\<close>,
  \<open>lastReminderAt\<close>), and the intake approval of the variant that derives the client code
  from the business name (fields \<open>businessName\<close>, \<open>nextDueDate\<close>, \<open>isPaused\<close>).

  Conventions of the embedding:
  \<^item> a \<open>Date\<close> is its time value, an \<open>int\<close> of milliseconds since the epoch; a nullable
    column is an \<open>option\<close>;
  \<^item> a handler is given the reading \<open>now\<close> of the clock; the readings taken inside one
    invocation (\<open>Date.now()\<close>, \<open>new Date()\<close>) are identified;
  \<^item> strings are lists of 8-bit characters; a character outside ASCII is the sequence of
    its UTF-8 bytes, in the literals of the source as in the values that \<open>trim\<close> and
    \<open>toLowerCase\<close> work on;
  \<^item> the store is a record of tables (lists of rows); reads and writes by key are total;
  \<^item> every call of \<open>sendEmail\<close> is logged in \<open>outbox\<close> with its result, in call order;
  \<^item> the admin routes are modelled after \<open>requireAdmin\<close> has let the request through.
\<close>

subsection \<open>Rows and the store\<close>

record client =
  client_id :: string
  name :: string
  code :: string
  email :: string
  bookingLink :: "string option"
  status :: string
  startedAt :: "int option"
  dueAt :: "int option"
  pausedAt :: "int option"
  pauseReason :: "string option"
  lastReminderAt :: "int option"

record lead =
  lead_clientId :: string
  lead_name :: string
  lead_email :: string
  lead_phone :: "string option"
  lead_message :: "string option"

record mail =
  to :: string
  subject :: string
  html :: string

record send_result =
  ok :: bool
  error :: "string option"

record world =
  clients :: "client list"
  leads :: "lead list"
  outbox :: "(mail \<times> send_result) list"

text \<open>A thrown \<open>Error\<close> (a rejected promise), with its \<open>message\<close>.\<close>

datatype exn = Error string

text \<open>
  The variables of \<open>process.env\<close> the code reads (\<open>None\<close>: not set), the three constants
  computed from it when the module is loaded (\<open>YOUR_NOTIFY_EMAIL\<close> is trimmed there,
  \<open>PLAN_DAYS\<close> and \<open>REMIND_DAYS_BEFORE\<close> are the integers \<open>parseInt\<close> returned), and the
  local time zone adjustment of the host, as ECMAScript's \<open>LocalTZA(t, isUTC)\<close>.
\<close>

record env =
  SMTP_HOST :: "string option"
  SMTP_PORT :: "string option"
  SMTP_USER :: "string option"
  SMTP_PASS :: "string option"
  MAIL_FROM :: "string option"
  BANK_ACCOUNT_NAME :: "string option"
  BANK_NAME :: "string option"
  BANK_ACCOUNT_NUMBER :: "string option"
  BANK_CURRENCY :: "string option"
  BANK_PAYMENT_NOTE :: "string option"
  YOUR_NOTIFY_EMAIL :: string
  PLAN_DAYS :: int
  REMIND_DAYS_BEFORE :: int
  LocalTZA_of_utc :: "int \<Rightarrow> int"
  LocalTZA_of_local :: "int \<Rightarrow> int"

subsection \<open>JavaScript values\<close>

text \<open>\<open>x || d\<close> on a string that may be undefined: the empty string is falsy.\<close>

definition or_else :: "string option \<Rightarrow> string \<Rightarrow> string" where
  "or_else x d = (case x of None \<Rightarrow> d | Some s \<Rightarrow> if s = [] then d else s)"

definition truthy :: "string option \<Rightarrow> bool" where
  "truthy x = (case x of None \<Rightarrow> False | Some s \<Rightarrow> s \<noteq> [])"

text \<open>\<open>x || null\<close>.\<close>

definition or_null :: "string \<Rightarrow> string option" where
  "or_null s = (if s = [] then None else Some s)"

text \<open>\<open>String(n)\<close> for an integer \<open>n\<close> (below \<open>10^21\<close> in absolute value).\<close>

fun digits :: "nat \<Rightarrow> string" where
  "digits n = (if n < 10 then [char_of (48 + n)] else digits (n div 10) @ [char_of (48 + n mod 10)])"

declare digits.simps [simp del]

definition num_str :: "int \<Rightarrow> string" where
  "num_str i = (if i < 0 then CHR ''-'' # digits (nat (- i)) else digits (nat i))"

text \<open>
  \<open>String.prototype.trim\<close> removes the white space and the line terminators of
  ECMAScript from both ends: U+0009--U+000D, U+0020, U+00A0, U+1680, U+2000--U+200A,
  U+2028, U+2029, U+202F, U+205F, U+3000 and U+FEFF, here as their UTF-8 encodings.
\<close>

definition white_space :: "string list" where
  "white_space =
     [[CHR 0x09], [CHR 0x0A], [CHR 0x0B], [CHR 0x0C], [CHR 0x0D], [CHR 0x20],
      [CHR 0xC2, CHR 0xA0],
      [CHR 0xE1, CHR 0x9A, CHR 0x80],
      [CHR 0xE2, CHR 0x80, CHR 0x80], [CHR 0xE2, CHR 0x80, CHR 0x81], [CHR 0xE2, CHR 0x80, CHR 0x82],
      [CHR 0xE2, CHR 0x80, CHR 0x83], [CHR 0xE2, CHR 0x80, CHR 0x84], [CHR 0xE2, CHR 0x80, CHR 0x85],
      [CHR 0xE2, CHR 0x80, CHR 0x86], [CHR 0xE2, CHR 0x80, CHR 0x87], [CHR 0xE2, CHR 0x80, CHR 0x88],
      [CHR 0xE2, CHR 0x80, CHR 0x89], [CHR 0xE2, CHR 0x80, CHR 0x8A],
      [CHR 0xE2, CHR 0x80, CHR 0xA8], [CHR 0xE2, CHR 0x80, CHR 0xA9],
      [CHR 0xE2, CHR 0x80, CHR 0xAF],
      [CHR 0xE2, CHR 0x81, CHR 0x9F],
      [CHR 0xE3, CHR 0x80, CHR 0x80],
      [CHR 0xEF, CHR 0xBB, CHR 0xBF]]"

text \<open>Removing, again and again, one of the sequences \<open>seqs\<close> from the front of a string.\<close>

function strip_leading :: "string list \<Rightarrow> string \<Rightarrow> string" where
  "strip_leading seqs s =
     (case find (\<lambda>ws. ws \<noteq> [] \<and> take (length ws) s = ws) seqs of
        None \<Rightarrow> s
      | Some ws \<Rightarrow> strip_leading seqs (drop (length ws) s))"
  by pat_completeness auto
termination
proof (relation "measure (\<lambda>(seqs, s). length s)")
  show "wf (measure (\<lambda>(seqs, s). length s))" by simp
next
  fix seqs :: "string list" and s ws :: string
  assume "find (\<lambda>ws. ws \<noteq> [] \<and> take (length ws) s = ws) seqs = Some ws"
  then have ws: "ws \<noteq> []" "take (length ws) s = ws"
    by (auto simp: find_Some_iff)
  then have "s \<noteq> []" by auto
  with ws(1) show "((seqs, drop (length ws) s), (seqs, s)) \<in> measure (\<lambda>(seqs, s). length s)"
    by simp
qed

declare strip_leading.simps [simp del]

definition trim :: "string \<Rightarrow> string" where
  "trim s = rev (strip_leading (map rev white_space) (rev (strip_leading white_space s)))"

subsection \<open>Helpers\<close>

definition msPerDay :: int where
  "msPerDay = 1000 * 60 * 60 * 24"

text \<open>
  \<open>addDays\<close>: \<open>d.setDate(d.getDate() + days)\<close> adds \<open>days\<close> to the day number of the local
  time and keeps the local time within the day; the result is converted back to UTC.
\<close>

definition addDays :: "env \<Rightarrow> int \<Rightarrow> int \<Rightarrow> int" where
  "addDays e date days =
     (let t = date + LocalTZA_of_utc e date;
          newDate = t + days * msPerDay
      in newDate - LocalTZA_of_local e newDate)"

text \<open>
  \<open>getDaysLeft\<close>: \<open>Math.ceil(ms / (1000 * 60 * 60 * 24))\<close>. The quotient of the two
  integers is rounded up; on integers that is \<open>- ((- ms) div msPerDay)\<close>, \<open>div\<close> rounding
  down. (The double division is exact enough for this below \<open>2^27\<close> days.)
\<close>

definition getDaysLeft :: "int \<Rightarrow> int option \<Rightarrow> int option" where
  "getDaysLeft now due =
     (case due of None \<Rightarrow> None
      | Some d \<Rightarrow> let ms = d - now in Some (- ((- ms) div msPerDay)))"

definition bankDetailsHtml :: "env \<Rightarrow> string" where
  "bankDetailsHtml e =
     (let name = or_else (BANK_ACCOUNT_NAME e) [];
          bank = or_else (BANK_NAME e) [];
          acc = or_else (BANK_ACCOUNT_NUMBER e) [];
          cur = or_else (BANK_CURRENCY e) [];
          note = or_else (BANK_PAYMENT_NOTE e) []
      in if name = [] \<and> bank = [] \<and> acc = [] then
           ''<p><b>Payment details will be provided after request.</b></p>''
         else
           ''\<newline>    <p><b>Bank Transfer Details</b></p>\<newline>    <ul>\<newline>      <li><b>Account Name:</b> '' @ name
           @ ''</li>\<newline>      <li><b>Bank Name:</b> '' @ bank
           @ ''</li>\<newline>      <li><b>Account Number:</b> '' @ acc
           @ ''</li>\<newline>      <li><b>Currency:</b> '' @ cur
           @ ''</li>\<newline>    </ul>\<newline>    <p>'' @ note @ ''</p>\<newline>  '')"

definition smtpReady :: "env \<Rightarrow> bool" where
  "smtpReady e = (truthy (SMTP_HOST e) \<and> truthy (SMTP_PORT e) \<and> truthy (SMTP_USER e) \<and> truthy (SMTP_PASS e))"

subsection \<open>Effects: the store, the log of sends, and exceptions\<close>

text \<open>
  An action runs on the world and either returns or throws; what it wrote before throwing
  stays written (no transaction surrounds a handler).
\<close>

type_synonym 'a io = "world \<Rightarrow> (exn + 'a) \<times> world"

definition io_return :: "'a \<Rightarrow> 'a io" where
  "io_return x = (\<lambda>w. (Inr x, w))"

definition io_bind :: "'a io \<Rightarrow> ('a \<Rightarrow> 'b io) \<Rightarrow> 'b io" where
  "io_bind m f = (\<lambda>w. case m w of (Inl ex, w') \<Rightarrow> (Inl ex, w') | (Inr x, w') \<Rightarrow> f x w')"

definition io_when :: "bool \<Rightarrow> unit io \<Rightarrow> unit io" where
  "io_when b m = (if b then m else io_return ())"

text \<open>\<open>for (const x of xs) { await body(x) }\<close>.\<close>

fun io_forEach :: "'a list \<Rightarrow> ('a \<Rightarrow> unit io) \<Rightarrow> unit io" where
  "io_forEach [] body = io_return ()"
| "io_forEach (x # xs) body = io_bind (body x) (\<lambda>_. io_forEach xs body)"

text \<open>\<open>prisma.client.update({ where: { id }, data })\<close>: the row with that id is patched.\<close>

definition client_update :: "string \<Rightarrow> (client \<Rightarrow> client) \<Rightarrow> unit io" where
  "client_update i patch =
     (\<lambda>w. (Inr (), w\<lparr>clients := map (\<lambda>c. if client_id c = i then patch c else c) (clients w)\<rparr>))"

text \<open>\<open>prisma.client.findUnique\<close> by id and by code.\<close>

definition client_by_id :: "string \<Rightarrow> world \<Rightarrow> client option" where
  "client_by_id i w = find (\<lambda>c. client_id c = i) (clients w)"

definition client_by_code :: "string \<Rightarrow> world \<Rightarrow> client option" where
  "client_by_code k w = find (\<lambda>c. code c = k) (clients w)"

text \<open>
  The mail transport (\<open>nodemailer\<close>) is outside the program: \<open>transport n\<close> is what the
  \<open>n\<close>-th call of \<open>sendEmail\<close> meets when it reaches \<open>createTransport\<close>/\<open>sendMail\<close>,
  \<open>None\<close> for a delivery and \<open>Some ex\<close> for a throw.

  \<open>sendEmail_try\<close> is the body of the \<open>try\<close> block, \<open>sendEmail\<close> the function with its
  \<open>catch\<close>: \<open>err?.message || String(err)\<close> is the message, or \<open>Error\<close> when it is empty.
\<close>

definition sendEmail_try :: "env \<Rightarrow> (nat \<Rightarrow> exn option) \<Rightarrow> mail \<Rightarrow> world \<Rightarrow> exn + send_result" where
  "sendEmail_try e transport m w =
     (if \<not> smtpReady e then Inr \<lparr>ok = False, error = None\<rparr>
      else case transport (length (outbox w)) of
             Some ex \<Rightarrow> Inl ex
           | None \<Rightarrow> Inr \<lparr>ok = True, error = None\<rparr>)"

definition sendEmail :: "env \<Rightarrow> (nat \<Rightarrow> exn option) \<Rightarrow> mail \<Rightarrow> send_result io" where
  "sendEmail e transport m =
     (\<lambda>w. let r = (case sendEmail_try e transport m w of
                     Inr r \<Rightarrow> r
                   | Inl (Error msg) \<Rightarrow> \<lparr>ok = False, error = Some (if msg \<noteq> [] then msg else ''Error'')\<rparr>)
          in (Inr r, w\<lparr>outbox := outbox w @ [(m, r)]\<rparr>))"

subsection \<open>The subscription checker\<close>

definition reminder_mail :: "env \<Rightarrow> client \<Rightarrow> int \<Rightarrow> mail" where
  "reminder_mail e c left =
     \<lparr>to = email c,
      subject = ''Payment Reminder: '' @ num_str left @ '' day(s) left'',
      html = ''\<newline>            <p>Hello '' @ name c
        @ '',</p>\<newline>            <p>Your Orbit plan will expire in <b>'' @ num_str left
        @ '' day(s)</b>.</p>\<newline>            <p>Please pay to avoid account pause.</p>\<newline>            ''
        @ bankDetailsHtml e @ ''\<newline>          ''\<rparr>"

definition expired_mail :: "env \<Rightarrow> client \<Rightarrow> mail" where
  "expired_mail e c =
     \<lparr>to = email c,
      subject = ''Account Paused: Payment Required'',
      html = ''\<newline>          <p>Hello '' @ name c
        @ '',</p>\<newline>          <p>Your account has been <b>PAUSED</b> because your subscription ended.</p>\<newline>          <p>Pay now to reactivate.</p>\<newline>          ''
        @ bankDetailsHtml e @ ''\<newline>        ''\<rparr>"

definition auto_paused_mail :: "env \<Rightarrow> client \<Rightarrow> mail" where
  "auto_paused_mail e c =
     \<lparr>to = YOUR_NOTIFY_EMAIL e,
      subject = ''Client Auto-Paused: '' @ name c @ '' ('' @ code c @ '')'',
      html = ''<p>Client <b>'' @ name c @ ''</b> was auto-paused due to expiry.</p>''\<rparr>"

text \<open>
  The body of the loop of \<open>subscriptionCheck\<close>, for one row \<open>c\<close> of the list that
  \<open>findMany\<close> returned. \<open>left !== null\<close> holds after the \<open>continue\<close>; it is kept as the
  code has it.
\<close>

definition already :: "int \<Rightarrow> client \<Rightarrow> bool" where
  "already now c =
     (case lastReminderAt c of None \<Rightarrow> False
      | Some t \<Rightarrow> now - t < 24 * 60 * 60 * 1000)"

definition check_client :: "env \<Rightarrow> (nat \<Rightarrow> exn option) \<Rightarrow> int \<Rightarrow> client \<Rightarrow> unit io" where
  "check_client e transport now c =
     (if dueAt c = None then io_return ()
      else
        let left = getDaysLeft now (dueAt c) in
        io_bind
          (io_when (status c = ''ACTIVE'' \<and> left \<noteq> None \<and> the left \<le> REMIND_DAYS_BEFORE e \<and> the left > 0)
             (io_when (\<not> already now c)
                (io_bind (client_update (client_id c) (\<lambda>r. r\<lparr>lastReminderAt := Some now\<rparr>))
                   (\<lambda>_. io_bind (sendEmail e transport (reminder_mail e c (the left)))
                      (\<lambda>_. io_return ())))))
          (\<lambda>_. io_when (status c = ''ACTIVE'' \<and> left \<noteq> None \<and> the left \<le> 0)
             (io_bind (client_update (client_id c)
                         (\<lambda>r. r\<lparr>status := ''PAUSED'', pausedAt := Some now, pauseReason := Some ''expired''\<rparr>))
                (\<lambda>_. io_bind (sendEmail e transport (expired_mail e c))
                   (\<lambda>_. io_when (YOUR_NOTIFY_EMAIL e \<noteq> [])
                      (io_bind (sendEmail e transport (auto_paused_mail e c))
                         (\<lambda>_. io_return ())))))))"

definition subscriptionCheck :: "env \<Rightarrow> (nat \<Rightarrow> exn option) \<Rightarrow> int \<Rightarrow> unit io" where
  "subscriptionCheck e transport now =
     (\<lambda>w. io_forEach (filter (\<lambda>c. status c \<in> set [''ACTIVE'', ''PAUSED'']) (clients w))
             (check_client e transport now) w)"

text \<open>
  The sends that the body of the loop makes for a row \<open>c\<close>, in order: what it adds to
  the log of an empty world.
\<close>

definition attempted :: "env \<Rightarrow> (nat \<Rightarrow> exn option) \<Rightarrow> int \<Rightarrow> client \<Rightarrow> mail list" where
  "attempted e transport now c =
     map fst (outbox (snd (check_client e transport now c \<lparr>clients = [], leads = [], outbox = []\<rparr>)))"

subsection \<open>The admin actions on a client\<close>

datatype response = Redirect string | Render string | Send nat string

definition client_findUnique_id :: "string \<Rightarrow> client option io" where
  "client_findUnique_id i = (\<lambda>w. (Inr (client_by_id i w), w))"

definition client_findUnique_code :: "string \<Rightarrow> client option io" where
  "client_findUnique_code k = (\<lambda>w. (Inr (client_by_code k w), w))"

definition paused_mail :: "env \<Rightarrow> client \<Rightarrow> mail" where
  "paused_mail e c =
     \<lparr>to = email c,
      subject = ''Account Paused: Payment Required'',
      html = ''\<newline>      <p>Hello '' @ name c
        @ '',</p>\<newline>      <p>Your account is <b>PAUSED</b>.</p>\<newline>      <p>Pay to reactivate:</p>\<newline>      ''
        @ bankDetailsHtml e @ ''\<newline>    ''\<rparr>"

text \<open>\<open>POST /admin/clients/:id/pause\<close>, behind \<open>requireAdmin\<close>.\<close>

definition pause_client :: "env \<Rightarrow> (nat \<Rightarrow> exn option) \<Rightarrow> int \<Rightarrow> string \<Rightarrow> response io" where
  "pause_client e transport now i =
     io_bind (client_findUnique_id i)
       (\<lambda>found. case found of
          None \<Rightarrow> io_return (Redirect ''/admin'')
        | Some c \<Rightarrow>
            io_bind (client_update i
                       (\<lambda>r. r\<lparr>status := ''PAUSED'', pausedAt := Some now, pauseReason := Some ''manual''\<rparr>))
              (\<lambda>_. io_bind (sendEmail e transport (paused_mail e c))
                 (\<lambda>_. io_return (Redirect ''/admin''))))"

definition reactivated_mail :: "client \<Rightarrow> mail" where
  "reactivated_mail c =
     \<lparr>to = email c,
      subject = ''Payment Received: Account Reactivated'',
      html = ''<p>Hello '' @ name c @ '',</p><p>Your account is now <b>ACTIVE</b>. Thank you!</p>''\<rparr>"

text \<open>\<open>POST /admin/clients/:id/paid\<close>, behind \<open>requireAdmin\<close>.\<close>

definition mark_paid :: "env \<Rightarrow> (nat \<Rightarrow> exn option) \<Rightarrow> int \<Rightarrow> string \<Rightarrow> response io" where
  "mark_paid e transport now i =
     io_bind (client_findUnique_id i)
       (\<lambda>found. case found of
          None \<Rightarrow> io_return (Redirect ''/admin'')
        | Some c \<Rightarrow>
            let due = addDays e now (PLAN_DAYS e) in
            io_bind (client_update i
                       (\<lambda>r. r\<lparr>status := ''ACTIVE'', startedAt := Some now, dueAt := Some due,
                               pausedAt := None, pauseReason := None\<rparr>))
              (\<lambda>_. io_bind (sendEmail e transport (reactivated_mail c))
                 (\<lambda>_. io_return (Redirect ''/admin''))))"

subsection \<open>Lead submission\<close>

text \<open>
  A value that \<open>bodyParser.urlencoded({ extended: true })\<close> or \<open>bodyParser.json()\<close> can
  put into a field of \<open>req.body\<close>; \<open>JUndefined\<close> is a missing field.
\<close>

datatype js_value =
    JUndefined
  | JNull
  | JBool bool
  | JNumber real
  | JString string
  | JArray "js_value list"
  | JObject "(string \<times> js_value) list"

definition falsy :: "js_value \<Rightarrow> bool" where
  "falsy v =
     (case v of JUndefined \<Rightarrow> True | JNull \<Rightarrow> True | JBool b \<Rightarrow> \<not> b | JNumber x \<Rightarrow> x = 0
      | JString s \<Rightarrow> s = [] | JArray xs \<Rightarrow> False | JObject kvs \<Rightarrow> False)"

text \<open>
  \<open>(v || "").trim()\<close>: a falsy value gives the empty string, a string is trimmed, and any
  other value has no function \<open>trim\<close>, so the call throws a \<open>TypeError\<close> (the wording of
  its message is the engine's).
\<close>

definition or_empty_trim :: "js_value \<Rightarrow> string io" where
  "or_empty_trim v =
     (\<lambda>w. if falsy v then (Inr (trim []), w)
          else case v of JString s \<Rightarrow> (Inr (trim s), w)
               | _ \<Rightarrow> (Inl (Error ''trim is not a function''), w))"

text \<open>The fields of \<open>req.body\<close> the handler reads.\<close>

record lead_form =
  form_name :: js_value
  form_email :: js_value
  form_phone :: js_value
  form_message :: js_value

definition lead_create :: "lead \<Rightarrow> lead io" where
  "lead_create ld = (\<lambda>w. (Inr ld, w\<lparr>leads := leads w @ [ld]\<rparr>))"

definition new_lead_mail :: "client \<Rightarrow> lead \<Rightarrow> mail" where
  "new_lead_mail client ld =
     \<lparr>to = email client,
      subject = ''New Lead Received '' @ [CHR 0xE2, CHR 0x9C, CHR 0x85],
      html = ''\<newline>        <p>Hello '' @ name client
        @ '',</p>\<newline>        <p>You got a new lead:</p>\<newline>        <ul>\<newline>          <li><b>Name:</b> '' @ lead_name ld
        @ ''</li>\<newline>          <li><b>Email:</b> '' @ lead_email ld
        @ ''</li>\<newline>          <li><b>Phone:</b> '' @ or_else (lead_phone ld) ''-''
        @ ''</li>\<newline>          <li><b>Message:</b> '' @ or_else (lead_message ld) ''-''
        @ ''</li>\<newline>        </ul>\<newline>      ''\<rparr>"

definition admin_lead_mail :: "env \<Rightarrow> client \<Rightarrow> lead \<Rightarrow> mail" where
  "admin_lead_mail e client ld =
     \<lparr>to = YOUR_NOTIFY_EMAIL e,
      subject = ''Client New Lead: '' @ name client @ '' ('' @ code client @ '')'',
      html = ''<p>New lead for <b>'' @ name client @ ''</b>: '' @ lead_name ld @ '' - ''
        @ lead_email ld @ ''</p>''\<rparr>"

definition auto_reply_mail :: "client \<Rightarrow> lead \<Rightarrow> mail" where
  "auto_reply_mail client ld =
     \<lparr>to = lead_email ld,
      subject = ''Thanks '' @ [CHR 0xE2, CHR 0x80, CHR 0x94] @ '' Book Your Call'',
      html = ''\<newline>          <p>Hi '' @ lead_name ld
        @ '',</p>\<newline>          <p>Thanks for reaching out to <b>'' @ name client
        @ ''</b>.</p>\<newline>          <p>Book here:</p>\<newline>          <p><a href='' @ [CHR 0x22]
        @ or_else (bookingLink client) [] @ [CHR 0x22] @ ''>'' @ or_else (bookingLink client) []
        @ ''</a></p>\<newline>        ''\<rparr>"

text \<open>
  \<open>POST /c/:code/lead\<close>. A throw leaves the handler before anything later in it runs
  (the promise of the \<open>async\<close> handler is rejected).
\<close>

definition submit_lead :: "env \<Rightarrow> (nat \<Rightarrow> exn option) \<Rightarrow> string \<Rightarrow> lead_form \<Rightarrow> response io" where
  "submit_lead e transport k body =
     io_bind (client_findUnique_code k)
       (\<lambda>found. case found of
          None \<Rightarrow> io_return (Send 404 ''Client not found'')
        | Some client \<Rightarrow>
            io_bind (or_empty_trim (form_name body)) (\<lambda>name.
            io_bind (or_empty_trim (form_email body)) (\<lambda>email.
            io_bind (or_empty_trim (form_phone body)) (\<lambda>phone.
            io_bind (or_empty_trim (form_message body)) (\<lambda>message.
            io_bind (lead_create \<lparr>lead_clientId = client_id client, lead_name = name, lead_email = email,
                                  lead_phone = or_null phone, lead_message = or_null message\<rparr>)
              (\<lambda>ld. io_bind
                 (io_when (status client = ''ACTIVE'')
                    (io_bind (sendEmail e transport (new_lead_mail client ld))
                       (\<lambda>_. io_bind
                          (io_when (YOUR_NOTIFY_EMAIL e \<noteq> [])
                             (io_bind (sendEmail e transport (admin_lead_mail e client ld))
                                (\<lambda>_. io_return ())))
                          (\<lambda>_. io_when (truthy (bookingLink client))
                             (io_bind (sendEmail e transport (auto_reply_mail client ld))
                                (\<lambda>_. io_return ()))))))
                 (\<lambda>_. io_return (Render ''thanks''))))))))"

subsection \<open>Intake approval with a derived code\<close>

text \<open>
  The variant of the server whose clients carry \<open>nextDueDate\<close> and \<open>isPaused\<close> derives
  the code of an approved intake from its business name. Its two tables, with the columns
  the handler reads and writes:
\<close>

record clientIntake =
  intake_id :: string
  businessName :: "string option"
  contactName :: "string option"
  intake_email :: string
  intake_phone :: "string option"
  intake_bookingUrl :: "string option"
  intake_notes :: "string option"
  intake_status :: string

record billing_client =
  bc_id :: string
  bc_name :: "string option"
  bc_code :: string
  bc_email :: string
  bc_bookingUrl :: "string option"
  subscriptionStart :: int
  nextDueDate :: int
  isPaused :: bool
  bc_pauseReason :: "string option"

record billing_store =
  billing_clients :: "billing_client list"
  clientIntakes :: "clientIntake list"

text \<open>
  \<open>s.toLowerCase().replace(/[^a-z0-9]/g, "")\<close>: what is left of the lowered string
  when everything but \<open>a\<close>--\<open>z\<close> and \<open>0\<close>--\<open>9\<close> is removed. A character of the result
  comes from \<open>a\<close>--\<open>z\<close> or \<open>0\<close>--\<open>9\<close> itself, from \<open>A\<close>--\<open>Z\<close>, from U+0130 (lowered
  to \<open>i\<close> and U+0307; UTF-8 \<open>C4 B0\<close>) or from U+212A (lowered to \<open>k\<close>; UTF-8
  \<open>E2 84 AA\<close>); the lowercase form of every other character lies outside ASCII and is
  removed.
\<close>

fun toLowerCase_alnum :: "string \<Rightarrow> string" where
  "toLowerCase_alnum [] = []"
| "toLowerCase_alnum (c # s) =
     (let n = of_char c :: nat in
      if (97 \<le> n \<and> n \<le> 122) \<or> (48 \<le> n \<and> n \<le> 57) then c # toLowerCase_alnum s
      else if 65 \<le> n \<and> n \<le> 90 then char_of (n + 32) # toLowerCase_alnum s
      else if n = 0xC4 \<and> take 1 s = [CHR 0xB0] then CHR ''i'' # toLowerCase_alnum s
      else if n = 0xE2 \<and> take 2 s = [CHR 0x84, CHR 0xAA] then CHR ''k'' # toLowerCase_alnum s
      else toLowerCase_alnum s)"

text \<open>\<open>prisma.client.findUnique({ where: { code } })\<close> finds a row.\<close>

definition code_taken :: "billing_client list \<Rightarrow> string \<Rightarrow> bool" where
  "code_taken cs k = (find (\<lambda>c. bc_code c = k) cs \<noteq> None)"

text \<open>The number that a decimal numeral denotes.\<close>

definition digits_value :: "string \<Rightarrow> nat" where
  "digits_value s = foldl (\<lambda>a c. 10 * a + (of_char c - 48)) 0 s"

text \<open>
  The loop \<open>while (await prisma.client.findUnique({ where: { code } })) { n += 1; code =
  `${baseCode}${n}`; }\<close>, on the loop variables \<open>code\<close> and \<open>n\<close>. It ends because the
  numerals are distinct and the table is finite.
\<close>

function unique_code :: "billing_client list \<Rightarrow> string \<Rightarrow> string \<Rightarrow> nat \<Rightarrow> string" where
  "unique_code cs baseCode code' n =
     (if code_taken cs code' then unique_code cs baseCode (baseCode @ digits (n + 1)) (n + 1)
      else code')"
  by pat_completeness auto
termination
proof -
  have val: "digits_value (digits k) = k" for k
  proof (induction k rule: digits.induct)
    case (1 k)
    show ?case
    proof (cases "k < 10")
      case True
      then show ?thesis
        by (subst digits.simps) (simp add: digits_value_def)
    next
      case False
      with 1 have "digits_value (digits (k div 10)) = k div 10" by simp
      with False show ?thesis
        by (subst digits.simps) (simp add: digits_value_def)
    qed
  qed
  have inj: "digits a = digits b \<Longrightarrow> a = b" for a b
    by (metis val)
  let ?later = "\<lambda>b n (c::billing_client). \<exists>k>n. bc_code c = b @ digits k"
  let ?m = "\<lambda>(cs, b, k, n). 2 * length (filter (?later b n) cs) + (if code_taken cs k then 1 else 0)"
  have le: "length (filter (?later b (n + 1)) cs) \<le> length (filter (?later b n) cs)" for b n cs
  proof (induction cs)
    case Nil
    show ?case by simp
  next
    case (Cons c cs)
    have "?later b (n + 1) c \<Longrightarrow> ?later b n c" by (meson add_lessD1)
    with Cons show ?case by auto
  qed
  have less: "code_taken cs (b @ digits (n + 1)) \<Longrightarrow>
              length (filter (?later b (n + 1)) cs) < length (filter (?later b n) cs)" for b n cs
  proof (induction cs)
    case Nil
    then show ?case by (simp add: code_taken_def)
  next
    case (Cons c cs)
    have imp: "?later b (n + 1) c \<Longrightarrow> ?later b n c" by (meson add_lessD1)
    show ?case
    proof (cases "bc_code c = b @ digits (n + 1)")
      case True
      then have "\<not> ?later b (n + 1) c" using inj by auto
      moreover from True have "?later b n c" by auto
      ultimately show ?thesis using le [where b = b and n = n and cs = cs] by auto
    next
      case False
      with Cons.prems have "code_taken cs (b @ digits (n + 1))" by (simp add: code_taken_def)
      then have "length (filter (?later b (n + 1)) cs) < length (filter (?later b n) cs)"
        by (rule Cons.IH)
      with imp show ?thesis by auto
    qed
  qed
  show ?thesis
  proof (relation "measure ?m")
    show "wf (measure ?m)" by simp
  next
    fix cs :: "billing_client list" and baseCode code' :: string and n :: nat
    assume taken: "code_taken cs code'"
    show "((cs, baseCode, baseCode @ digits (n + 1), n + 1), (cs, baseCode, code', n)) \<in> measure ?m"
    proof (cases "code_taken cs (baseCode @ digits (n + 1))")
      case True
      with less [OF True] taken show ?thesis by simp
    next
      case False
      with le [where b = baseCode and n = n and cs = cs] taken show ?thesis by simp
    qed
  qed
qed

declare unique_code.simps [simp del]

text \<open>
  \<open>POST /admin/intakes/:id/approve\<close>, behind \<open>requireAdmin\<close>; \<open>new_id\<close> is the id the
  store gives the new row.
\<close>

definition approve_intake :: "env \<Rightarrow> int \<Rightarrow> string \<Rightarrow> string \<Rightarrow> billing_store \<Rightarrow> response \<times> billing_store" where
  "approve_intake e now new_id i s =
     (case find (\<lambda>x. intake_id x = i) (clientIntakes s) of
        None \<Rightarrow> (Send 404 ''Intake not found'', s)
      | Some intake \<Rightarrow>
          let baseCode = take 12 (toLowerCase_alnum (or_else (businessName intake) ''client''));
              baseCode = (if baseCode = [] then ''client'' else baseCode);
              code = unique_code (billing_clients s) baseCode baseCode 1;
              start = now;
              due = addDays e start 30
          in (Redirect ''/admin'',
              s\<lparr>billing_clients := billing_clients s @
                   [\<lparr>bc_id = new_id, bc_name = businessName intake, bc_code = code,
                     bc_email = intake_email intake,
                     bc_bookingUrl = (case intake_bookingUrl intake of None \<Rightarrow> None | Some u \<Rightarrow> or_null u),
                     subscriptionStart = start, nextDueDate = due, isPaused = False,
                     bc_pauseReason = None\<rparr>],
                clientIntakes := map (\<lambda>x. if intake_id x = intake_id intake then x\<lparr>intake_status := ''approved''\<rparr> else x)
                                   (clientIntakes s)\<rparr>))"

subsection \<open>What one iteration of the checker does to a row\<close>

text \<open>
  The loop body patches the row with the id of \<open>c\<close> and sends mails that depend on \<open>c\<close>
  only. \<open>row_after\<close> and \<open>row_sends\<close> spell both out; the lemmas of the next section
  show that they describe \<open>check_client\<close>.
\<close>

definition row_after :: "env \<Rightarrow> int \<Rightarrow> client \<Rightarrow> client \<Rightarrow> client" where
  "row_after e now c r =
     (case getDaysLeft now (dueAt c) of None \<Rightarrow> r
      | Some left \<Rightarrow>
          if status c \<noteq> ''ACTIVE'' then r
          else if left \<le> 0 then r\<lparr>status := ''PAUSED'', pausedAt := Some now, pauseReason := Some ''expired''\<rparr>
          else if left \<le> REMIND_DAYS_BEFORE e \<and> \<not> already now c then r\<lparr>lastReminderAt := Some now\<rparr>
          else r)"

definition row_sends :: "env \<Rightarrow> int \<Rightarrow> client \<Rightarrow> mail list" where
  "row_sends e now c =
     (case getDaysLeft now (dueAt c) of None \<Rightarrow> []
      | Some left \<Rightarrow>
          if status c \<noteq> ''ACTIVE'' then []
          else if left \<le> 0 then expired_mail e c # (if YOUR_NOTIFY_EMAIL e \<noteq> [] then [auto_paused_mail e c] else [])
          else if left \<le> REMIND_DAYS_BEFORE e \<and> \<not> already now c then [reminder_mail e c left]
          else [])"

subsection \<open>A small store for the examples\<close>

definition demo_env :: env where
  "demo_env =
     \<lparr>SMTP_HOST = Some ''smtp.example.com'', SMTP_PORT = Some ''587'', SMTP_USER = Some ''orbit'',
      SMTP_PASS = Some ''secret'', MAIL_FROM = None, BANK_ACCOUNT_NAME = None, BANK_NAME = None,
      BANK_ACCOUNT_NUMBER = None, BANK_CURRENCY = None, BANK_PAYMENT_NOTE = None,
      YOUR_NOTIFY_EMAIL = ''ops@example.com'', PLAN_DAYS = 30, REMIND_DAYS_BEFORE = 3,
      LocalTZA_of_utc = (\<lambda>_. 0), LocalTZA_of_local = (\<lambda>_. 0)\<rparr>"

definition demo_active :: client where
  "demo_active =
     \<lparr>client_id = ''c1'', name = ''Acme'', code = ''acme'', email = ''owner@acme.example'',
      bookingLink = Some ''https://cal.example/acme'', status = ''ACTIVE'', startedAt = Some 0,
      dueAt = Some 2592000000, pausedAt = None, pauseReason = None, lastReminderAt = None\<rparr>"

definition demo_paused :: client where
  "demo_paused =
     \<lparr>client_id = ''c2'', name = ''Bolt'', code = ''bolt'', email = ''owner@bolt.example'',
      bookingLink = Some ''https://cal.example/bolt'', status = ''PAUSED'', startedAt = Some 0,
      dueAt = Some 86400000, pausedAt = Some 90000000, pauseReason = Some ''expired'',
      lastReminderAt = Some 3600000\<rparr>"

definition demo_world :: world where
  "demo_world = \<lparr>clients = [demo_active, demo_paused], leads = [], outbox = []\<rparr>"

definition transport_down :: "nat \<Rightarrow> exn option" where
  "transport_down n = Some (Error ''ECONNREFUSED'')"

definition demo_form :: lead_form where
  "demo_form =
     \<lparr>form_name = JString ([CHR 0xC2, CHR 0xA0] @ '' Dana '' @ [CHR 0xE2, CHR 0x80, CHR 0xA8]),
      form_email = JString ''dana@example.org'', form_phone = JUndefined,
      form_message = JString ''Call me''\<rparr>"

text \<open>
  A host in New York around the end of daylight time on 1 November 2026, 06:00 UTC
  (\<open>1793512800000\<close>): four hours behind UTC before it, five hours after it; a local time
  is read with the offset in force before local 02:00 of that day.
\<close>

definition ny_env :: env where
  "ny_env =
     demo_env\<lparr>LocalTZA_of_utc := (\<lambda>t. if t < 1793512800000 then - 14400000 else - 18000000),
              LocalTZA_of_local := (\<lambda>t. if t < 1793512800000 - 14400000 then - 14400000 else - 18000000)\<rparr>"

definition demo_store :: billing_store where
  "demo_store =
     \<lparr>billing_clients =
        [\<lparr>bc_id = ''b1'', bc_name = Some ''ACME'', bc_code = ''acme'', bc_email = ''first@acme.example'',
          bc_bookingUrl = None, subscriptionStart = 0, nextDueDate = 2592000000, isPaused = False,
          bc_pauseReason = None\<rparr>],
      clientIntakes =
        [\<lparr>intake_id = ''i1'', businessName = Some ''Acme!'', contactName = Some ''Dana'',
          intake_email = ''second@acme.example'', intake_phone = None, intake_bookingUrl = None,
          intake_notes = None, intake_status = ''new''\<rparr>]\<rparr>"

section \<open>Properties\<close>

subsection \<open>The checker, row by row\<close>

text \<open>A throw in the body of a loop ends the loop: the rest of the list is not visited.\<close>

lemma io_forEach_stops_at_throw:
  "body x w = (Inl ex, w') \<Longrightarrow> io_forEach (x # xs) body w = (Inl ex, w')"
  by (simp add: io_bind_def)

lemma getDaysLeft_None [simp]: "getDaysLeft now None = None"
  by (simp add: getDaysLeft_def)

lemma getDaysLeft_Some: "getDaysLeft now (Some d) = Some (- ((now - d) div msPerDay))"
  by (simp add: getDaysLeft_def Let_def)

lemma check_client_fst: "fst (check_client e tr now c w) = Inr ()"
  by (cases "dueAt c")
     (simp_all add: check_client_def io_bind_def io_when_def io_return_def client_update_def
        sendEmail_def Let_def getDaysLeft_Some)

lemma check_client_clients:
  "clients (snd (check_client e tr now c w)) =
     map (\<lambda>r. if client_id r = client_id c then row_after e now c r else r) (clients w)"
  by (cases "dueAt c")
     (auto simp add: check_client_def io_bind_def io_when_def io_return_def client_update_def
        sendEmail_def Let_def getDaysLeft_Some row_after_def map_idI)

lemma check_client_outbox:
  "map fst (outbox (snd (check_client e tr now c w))) = map fst (outbox w) @ row_sends e now c"
  by (cases "dueAt c")
     (simp_all add: check_client_def io_bind_def io_when_def io_return_def client_update_def
        sendEmail_def Let_def getDaysLeft_Some row_sends_def)

lemma attempted_eq: "attempted e tr now = row_sends e now"
  by (rule ext) (simp add: attempted_def check_client_outbox)

lemma row_after_id [simp]: "client_id (row_after e now c r) = client_id r"
  by (simp add: row_after_def split: option.split)

lemma forEach_check_fst: "fst (io_forEach xs (check_client e tr now) w) = Inr ()"
proof (induction xs arbitrary: w)
  case Nil
  show ?case by (simp add: io_return_def)
next
  case (Cons x xs)
  obtain w' where w': "check_client e tr now x w = (Inr (), w')"
    using check_client_fst [of e tr now x w] by (cases "check_client e tr now x w") simp
  then show ?case using Cons.IH [of w'] by (simp add: io_bind_def)
qed

lemma forEach_check_clients:
  "clients (snd (io_forEach xs (check_client e tr now) w)) =
     map (fold (\<lambda>c r. if client_id r = client_id c then row_after e now c r else r) xs) (clients w)"
proof (induction xs arbitrary: w)
  case Nil
  show ?case by (simp add: io_return_def)
next
  case (Cons x xs)
  obtain w' where w': "check_client e tr now x w = (Inr (), w')"
    using check_client_fst [of e tr now x w] by (cases "check_client e tr now x w") simp
  then have "clients w' = map (\<lambda>r. if client_id r = client_id x then row_after e now x r else r) (clients w)"
    using check_client_clients [of e tr now x w] by simp
  with w' show ?case using Cons.IH [of w'] by (simp add: io_bind_def comp_def)
qed

lemma forEach_check_outbox:
  "map fst (outbox (snd (io_forEach xs (check_client e tr now) w))) =
     map fst (outbox w) @ concat (map (row_sends e now) xs)"
proof (induction xs arbitrary: w)
  case Nil
  show ?case by (simp add: io_return_def)
next
  case (Cons x xs)
  obtain w' where w': "check_client e tr now x w = (Inr (), w')"
    using check_client_fst [of e tr now x w] by (cases "check_client e tr now x w") simp
  then have "map fst (outbox w') = map fst (outbox w) @ row_sends e now x"
    using check_client_outbox [of e tr now x w] by simp
  with w' show ?case using Cons.IH [of w'] by (simp add: io_bind_def)
qed

lemma fold_own_row:
  "distinct (map client_id xs) \<Longrightarrow>
   fold (\<lambda>c r. if client_id r = client_id c then row_after e now c r else r) xs r =
     (case find (\<lambda>x. client_id x = client_id r) xs of None \<Rightarrow> r | Some x \<Rightarrow> row_after e now x r)"
proof (induction xs arbitrary: r)
  case Nil
  show ?case by simp
next
  case (Cons x xs)
  show ?case
  proof (cases "client_id x = client_id r")
    case True
    from Cons.prems have "client_id x \<notin> client_id ` set xs" by simp
    with True have "\<forall>y\<in>set xs. client_id y \<noteq> client_id r" by (metis imageI)
    then have "find (\<lambda>y. client_id y = client_id r) xs = None"
      by (simp add: find_None_iff)
    with True Cons show ?thesis by simp
  next
    case False
    with Cons show ?thesis by simp
  qed
qed

lemma find_own_id:
  "distinct (map client_id xs) \<Longrightarrow> c \<in> set xs \<Longrightarrow> find (\<lambda>x. client_id x = client_id c) xs = Some c"
  by (induction xs) (auto simp: image_iff)

lemma find_map_id:
  "(\<And>r. client_id (g r) = client_id r) \<Longrightarrow>
   find (\<lambda>r. client_id r = i) (map g xs) = map_option g (find (\<lambda>r. client_id r = i) xs)"
  by (induction xs) simp_all

lemma pass_fst: "fst (subscriptionCheck e tr now w) = Inr ()"
  by (simp add: subscriptionCheck_def forEach_check_fst)

lemma pass_outbox:
  "map fst (outbox (snd (subscriptionCheck e tr now w))) =
     map fst (outbox w) @
     concat (map (attempted e tr now) (filter (\<lambda>c. status c \<in> set [''ACTIVE'', ''PAUSED'']) (clients w)))"
  by (simp add: subscriptionCheck_def forEach_check_outbox attempted_eq)

lemma fold_row_id:
  "client_id (fold (\<lambda>c r. if client_id r = client_id c then row_after e now c r else r) xs r) = client_id r"
  by (induction xs arbitrary: r) simp_all

lemma pass_ids:
  "map client_id (clients (snd (subscriptionCheck e tr now w))) = map client_id (clients w)"
  by (simp add: subscriptionCheck_def forEach_check_clients comp_def fold_row_id)

lemma pass_row:
  assumes "distinct (map client_id (clients w))" and "c \<in> set (clients w)"
  shows "client_by_id (client_id c) (snd (subscriptionCheck e tr now w)) = Some (row_after e now c c)"
proof -
  let ?xs = "filter (\<lambda>c. status c \<in> set [''ACTIVE'', ''PAUSED'']) (clients w)"
  let ?F = "\<lambda>c r. if client_id r = client_id c then row_after e now c r else r"
  have d: "distinct (map client_id ?xs)"
    using assms(1) by (rule distinct_map_filter)
  have idf: "client_id (fold ?F ?xs r) = client_id r" for r
    by (rule fold_row_id)
  have eq: "fold ?F ?xs c =
      (case find (\<lambda>x. client_id x = client_id c) ?xs of None \<Rightarrow> c | Some x \<Rightarrow> row_after e now x c)"
    using d by (rule fold_own_row)
  have "fold ?F ?xs c = row_after e now c c"
  proof (cases "c \<in> set ?xs")
    case True
    with d have "find (\<lambda>x. client_id x = client_id c) ?xs = Some c" by (rule find_own_id)
    with eq show ?thesis by (simp only: option.case)
  next
    case False
    with assms(2) have "status c \<noteq> ''ACTIVE''" by auto
    then have r: "row_after e now c c = c" by (simp add: row_after_def split: option.split)
    have "find (\<lambda>x. client_id x = client_id c) ?xs = None"
    proof (rule ccontr)
      assume "find (\<lambda>x. client_id x = client_id c) ?xs \<noteq> None"
      then obtain x where x: "x \<in> set ?xs" "client_id x = client_id c"
        by (auto simp: find_None_iff)
      then have "x \<in> set (clients w)" by simp
      with assms x(2) have "x = c" by (meson distinct_map inj_onD)
      with x(1) False show False by simp
    qed
    with r eq show ?thesis by (simp only: option.case)
  qed
  moreover have "find (\<lambda>r. client_id r = client_id c) (clients w) = Some c"
    using assms by (rule find_own_id)
  ultimately show ?thesis
    using find_map_id [of "fold ?F ?xs" "client_id c" "clients w", OF idf]
    by (simp add: client_by_id_def subscriptionCheck_def forEach_check_clients)
qed

subsection \<open>Expiry\<close>

text \<open>
  C1. A client that is \<open>ACTIVE\<close> with \<open>daysLeft \<le> 0\<close> (its due date is not after
  \<open>now\<close>) is, after one pass of
  the checker, \<open>PAUSED\<close> with \<open>pausedAt = now\<close> and \<open>pauseReason = "expired"\<close>. The pass
  makes for it exactly one send to the client, the pause notice, followed by one send to the
  operator exactly when \<open>YOUR_NOTIFY_EMAIL\<close> is set. The sends of a pass are those of its
  rows, in row order.
\<close>

theorem expired_active_client_is_paused:
  assumes "distinct (map client_id (clients w))"
    and "c \<in> set (clients w)"
    and "status c = ''ACTIVE''"
    and "getDaysLeft now (dueAt c) = Some left"
    and "left \<le> 0"
  shows "client_by_id (client_id c) (snd (subscriptionCheck e tr now w)) =
           Some (c\<lparr>status := ''PAUSED'', pausedAt := Some now, pauseReason := Some ''expired''\<rparr>)
       \<and> attempted e tr now c =
           expired_mail e c # (if YOUR_NOTIFY_EMAIL e \<noteq> [] then [auto_paused_mail e c] else [])
       \<and> to (expired_mail e c) = email c
       \<and> to (auto_paused_mail e c) = YOUR_NOTIFY_EMAIL e
       \<and> map fst (outbox (snd (subscriptionCheck e tr now w))) =
           map fst (outbox w) @
           concat (map (attempted e tr now)
                     (filter (\<lambda>c. status c \<in> set [''ACTIVE'', ''PAUSED'']) (clients w)))
       \<and> (\<exists>d. dueAt c = Some d \<and> d \<le> now)"
proof -
  obtain d where d: "dueAt c = Some d"
    using assms(4) by (cases "dueAt c") simp_all
  have "0 \<le> (now - d) div msPerDay"
    using assms(4,5) d by (simp add: getDaysLeft_Some)
  then have "d \<le> now"
    by (simp add: pos_imp_zdiv_nonneg_iff msPerDay_def)
  with d have past: "\<exists>d. dueAt c = Some d \<and> d \<le> now" by simp
  have "row_after e now c c = c\<lparr>status := ''PAUSED'', pausedAt := Some now, pauseReason := Some ''expired''\<rparr>"
    using assms(3-5) by (simp add: row_after_def)
  moreover have "row_sends e now c =
      expired_mail e c # (if YOUR_NOTIFY_EMAIL e \<noteq> [] then [auto_paused_mail e c] else [])"
    using assms(3-5) by (simp add: row_sends_def)
  ultimately show ?thesis
    using pass_row [OF assms(1,2), of e tr now] pass_outbox [of e tr now w] past
    by (simp add: attempted_eq expired_mail_def auto_paused_mail_def)
qed

theorem expired_active_client_is_paused_witness:
  "client_by_id ''c1'' (snd (subscriptionCheck demo_env transport_down 2600000000 demo_world)) =
     Some (demo_active\<lparr>status := ''PAUSED'', pausedAt := Some 2600000000, pauseReason := Some ''expired''\<rparr>)
   \<and> attempted demo_env transport_down 2600000000 demo_active =
       [expired_mail demo_env demo_active, auto_paused_mail demo_env demo_active]"
  using expired_active_client_is_paused [of demo_world demo_active 2600000000 0 demo_env transport_down]
  by (simp add: demo_world_def demo_active_def demo_paused_def demo_env_def getDaysLeft_def msPerDay_def)

subsection \<open>Reminders\<close>

text \<open>\<open>digits\<close> writes a number in decimal: digits only, no leading zero, the right value.\<close>

lemma digits_value_digits: "digits_value (digits n) = n"
proof (induction n rule: digits.induct)
  case (1 n)
  show ?case
  proof (cases "n < 10")
    case True
    then show ?thesis
      by (subst digits.simps) (simp add: digits_value_def)
  next
    case False
    with 1 have "digits_value (digits (n div 10)) = n div 10" by simp
    with False show ?thesis
      by (subst digits.simps) (simp add: digits_value_def)
  qed
qed

lemma digits_not_empty: "digits n \<noteq> []"
  by (subst digits.simps) simp

lemma digits_are_decimal:
  "ch \<in> set (digits n) \<Longrightarrow> 48 \<le> (of_char ch :: nat) \<and> (of_char ch :: nat) \<le> 57"
proof (induction n rule: digits.induct)
  case (1 n)
  show ?case
  proof (cases "n < 10")
    case True
    with "1.prems" have "ch = char_of (48 + n)"
      by (subst (asm) digits.simps) simp
    with True show ?thesis by simp
  next
    case False
    with "1.prems" have "ch \<in> set (digits (n div 10)) \<or> ch = char_of (48 + n mod 10)"
      by (subst (asm) digits.simps) auto
    then show ?thesis
    proof
      assume "ch \<in> set (digits (n div 10))"
      with False 1 show ?thesis by simp
    next
      assume "ch = char_of (48 + n mod 10)"
      moreover have "n mod 10 < 10" by simp
      ultimately show ?thesis by simp
    qed
  qed
qed

lemma digits_no_leading_zero: "0 < n \<Longrightarrow> (of_char (hd (digits n)) :: nat) \<noteq> 48"
proof (induction n rule: digits.induct)
  case (1 n)
  show ?case
  proof (cases "n < 10")
    case True
    with "1.prems" show ?thesis
      by (subst digits.simps) simp
  next
    case False
    then have "0 < n div 10" by simp
    with False 1 have "(of_char (hd (digits (n div 10))) :: nat) \<noteq> 48" by simp
    with False show ?thesis
      by (subst digits.simps) (simp add: digits_not_empty)
  qed
qed

text \<open>
  C2. A client that is \<open>ACTIVE\<close> with \<open>0 < daysLeft \<le> REMIND_DAYS_BEFORE\<close> and no reminder
  in the last 24 hours gets, in one pass, \<open>lastReminderAt = now\<close> and exactly one send: the
  reminder to the client. Its subject and its text carry the number of days left, written
  in decimal: a numeral of digits only, without a leading zero, whose value is \<open>daysLeft\<close>.
  This holds for every value of \<open>daysLeft\<close> in the window.
\<close>

theorem reminder_sent_inside_window:
  assumes "distinct (map client_id (clients w))"
    and "c \<in> set (clients w)"
    and "status c = ''ACTIVE''"
    and "getDaysLeft now (dueAt c) = Some left"
    and "0 < left" and "left \<le> REMIND_DAYS_BEFORE e"
    and "\<forall>t. lastReminderAt c = Some t \<longrightarrow> 24 * 60 * 60 * 1000 \<le> now - t"
  shows "client_by_id (client_id c) (snd (subscriptionCheck e tr now w)) =
           Some (c\<lparr>lastReminderAt := Some now\<rparr>)
       \<and> attempted e tr now c = [reminder_mail e c left]
       \<and> to (reminder_mail e c left) = email c
       \<and> subject (reminder_mail e c left) = ''Payment Reminder: '' @ num_str left @ '' day(s) left''
       \<and> (\<exists>before after. html (reminder_mail e c left) =
             before @ ''expire in <b>'' @ num_str left @ '' day(s)</b>'' @ after)
       \<and> digits_value (num_str left) = nat left
       \<and> (\<forall>ch \<in> set (num_str left). 48 \<le> (of_char ch :: nat) \<and> (of_char ch :: nat) \<le> 57)
       \<and> (of_char (hd (num_str left)) :: nat) \<noteq> 48
       \<and> map fst (outbox (snd (subscriptionCheck e tr now w))) =
           map fst (outbox w) @
           concat (map (attempted e tr now)
                     (filter (\<lambda>c. status c \<in> set [''ACTIVE'', ''PAUSED'']) (clients w)))"
proof -
  have na: "\<not> already now c"
    using assms(7) by (auto simp: already_def split: option.split)
  have "row_after e now c c = c\<lparr>lastReminderAt := Some now\<rparr>"
    using assms(3-6) na by (simp add: row_after_def)
  moreover have "row_sends e now c = [reminder_mail e c left]"
    using assms(3-6) na by (simp add: row_sends_def)
  moreover have n: "num_str left = digits (nat left)"
    using assms(5) by (simp add: num_str_def)
  have "digits_value (num_str left) = nat left"
    by (simp add: n digits_value_digits)
  moreover have "\<forall>ch \<in> set (num_str left). 48 \<le> (of_char ch :: nat) \<and> (of_char ch :: nat) \<le> 57"
    using digits_are_decimal by (simp add: n)
  moreover have "(of_char (hd (num_str left)) :: nat) \<noteq> 48"
    using assms(5) by (simp add: n digits_no_leading_zero)
  moreover have "\<exists>before after. html (reminder_mail e c left) =
             before @ ''expire in <b>'' @ num_str left @ '' day(s)</b>'' @ after"
  proof -
    have "html (reminder_mail e c left) =
        (''\<newline>            <p>Hello '' @ name c @ '',</p>\<newline>            <p>Your Orbit plan will '')
        @ ''expire in <b>'' @ num_str left @ '' day(s)</b>''
        @ (''.</p>\<newline>            <p>Please pay to avoid account pause.</p>\<newline>            ''
           @ bankDetailsHtml e @ ''\<newline>          '')"
      by (simp add: reminder_mail_def)
    then show ?thesis by blast
  qed
  ultimately show ?thesis
    using pass_row [OF assms(1,2), of e tr now] pass_outbox [of e tr now w]
    by (simp add: attempted_eq reminder_mail_def)
qed

theorem reminder_sent_inside_window_witness:
  "client_by_id ''c1'' (snd (subscriptionCheck demo_env transport_down 2400000000 demo_world)) =
     Some (demo_active\<lparr>lastReminderAt := Some 2400000000\<rparr>)
   \<and> attempted demo_env transport_down 2400000000 demo_active = [reminder_mail demo_env demo_active 3]
   \<and> subject (reminder_mail demo_env demo_active 3) = ''Payment Reminder: 3 day(s) left''
   \<and> attempted (demo_env\<lparr>REMIND_DAYS_BEFORE := 30\<rparr>) transport_down 1555200001 demo_active =
       [reminder_mail (demo_env\<lparr>REMIND_DAYS_BEFORE := 30\<rparr>) demo_active 12]
   \<and> subject (reminder_mail (demo_env\<lparr>REMIND_DAYS_BEFORE := 30\<rparr>) demo_active 12) =
       ''Payment Reminder: 12 day(s) left''"
proof -
  have h1: "distinct (map client_id (clients demo_world))"
    by (simp add: demo_world_def demo_active_def demo_paused_def)
  have h2: "demo_active \<in> set (clients demo_world)"
    by (simp add: demo_world_def)
  have h3: "status demo_active = ''ACTIVE''"
    by (simp add: demo_active_def)
  have h4: "getDaysLeft 2400000000 (dueAt demo_active) = Some 3"
    and h4': "getDaysLeft 1555200001 (dueAt demo_active) = Some 12"
    by (simp_all add: demo_active_def getDaysLeft_def msPerDay_def)
  have h6: "3 \<le> REMIND_DAYS_BEFORE demo_env"
    and h6': "12 \<le> REMIND_DAYS_BEFORE (demo_env\<lparr>REMIND_DAYS_BEFORE := 30\<rparr>)"
    by (simp_all add: demo_env_def)
  have h7: "\<forall>t. lastReminderAt demo_active = Some t \<longrightarrow> 24 * 60 * 60 * 1000 \<le> x - t" for x
    by (simp add: demo_active_def)
  have i: "client_id demo_active = ''c1''"
    by (simp add: demo_active_def)
  have n3: "num_str 3 = ''3''" and n12: "num_str 12 = ''12''"
    by code_simp+
  from reminder_sent_inside_window [OF h1 h2 h3 h4 _ h6 h7, of transport_down]
  have a: "client_by_id ''c1'' (snd (subscriptionCheck demo_env transport_down 2400000000 demo_world)) =
       Some (demo_active\<lparr>lastReminderAt := Some 2400000000\<rparr>)
     \<and> attempted demo_env transport_down 2400000000 demo_active = [reminder_mail demo_env demo_active 3]
     \<and> subject (reminder_mail demo_env demo_active 3) = ''Payment Reminder: 3 day(s) left''"
    unfolding i n3 by simp
  from reminder_sent_inside_window [OF h1 h2 h3 h4' _ h6' h7, of transport_down]
  have b: "attempted (demo_env\<lparr>REMIND_DAYS_BEFORE := 30\<rparr>) transport_down 1555200001 demo_active =
       [reminder_mail (demo_env\<lparr>REMIND_DAYS_BEFORE := 30\<rparr>) demo_active 12]
     \<and> subject (reminder_mail (demo_env\<lparr>REMIND_DAYS_BEFORE := 30\<rparr>) demo_active 12) =
       ''Payment Reminder: 12 day(s) left''"
    unfolding n12 by simp
  from a b show ?thesis by blast
qed

text \<open>
  C3. After a pass at \<open>now1\<close> that reminded a client, a second pass at \<open>now2\<close> with
  \<open>now2 - now1\<close> below 24 hours sends no reminder for it and leaves \<open>lastReminderAt\<close> at
  \<open>now1\<close>; the test is on the difference of the two instants, not on the calendar day.
  (If the client has expired by \<open>now2\<close>, the second pass sends its pause notice.) The
  example below reminds at 23:59 and checks again at 00:05 of the next day.
\<close>

theorem second_pass_within_24h_sends_no_reminder:
  assumes "distinct (map client_id (clients w))"
    and "c \<in> set (clients w)"
    and "status c = ''ACTIVE''"
    and "getDaysLeft now1 (dueAt c) = Some left"
    and "0 < left" and "left \<le> REMIND_DAYS_BEFORE e"
    and "\<not> already now1 c"
    and "now2 - now1 < 24 * 60 * 60 * 1000"
    and "w1 = snd (subscriptionCheck e tr1 now1 w)"
    and "w2 = snd (subscriptionCheck e tr2 now2 w1)"
    and "c1 = c\<lparr>lastReminderAt := Some now1\<rparr>"
  shows "client_by_id (client_id c) w1 = Some c1
       \<and> attempted e tr1 now1 c = [reminder_mail e c left]
       \<and> (\<forall>k. reminder_mail e c1 k \<notin> set (attempted e tr2 now2 c1))
       \<and> attempted e tr2 now2 c1 =
           (if the (getDaysLeft now2 (dueAt c)) \<le> 0
            then expired_mail e c1 # (if YOUR_NOTIFY_EMAIL e \<noteq> [] then [auto_paused_mail e c1] else [])
            else [])
       \<and> map fst (outbox w2) =
           map fst (outbox w1) @
           concat (map (attempted e tr2 now2)
                     (filter (\<lambda>c. status c \<in> set [''ACTIVE'', ''PAUSED'']) (clients w1)))
       \<and> map_option lastReminderAt (client_by_id (client_id c) w2) = Some (Some now1)"
proof -
  obtain d where d: "dueAt c = Some d"
    using assms(4) by (cases "dueAt c") simp_all
  have r1: "row_after e now1 c c = c1"
    using assms(3-7,11) by (simp add: row_after_def)
  have s1: "row_sends e now1 c = [reminder_mail e c left]"
    using assms(3-7) by (simp add: row_sends_def)
  have first: "client_by_id (client_id c) w1 = Some c1"
    using pass_row [OF assms(1,2), of e tr1 now1] r1 assms(9) by simp
  have d1: "distinct (map client_id (clients w1))"
    using assms(1,9) by (simp add: pass_ids)
  have in1: "c1 \<in> set (clients w1)"
    using first by (auto simp: client_by_id_def find_Some_iff)
  have al: "already now2 c1"
    using assms(8,11) by (simp add: already_def)
  have s2: "row_sends e now2 c1 =
      (if the (getDaysLeft now2 (dueAt c)) \<le> 0
       then expired_mail e c1 # (if YOUR_NOTIFY_EMAIL e \<noteq> [] then [auto_paused_mail e c1] else [])
       else [])"
    using al assms(3,11) d by (simp add: row_sends_def getDaysLeft_Some)
  have no: "reminder_mail e c1 k \<notin> set (row_sends e now2 c1)" for k
    by (simp add: s2 reminder_mail_def expired_mail_def auto_paused_mail_def)
  have "lastReminderAt (row_after e now2 c1 c1) = Some now1"
    using al assms(11) by (simp add: row_after_def split: option.split)
  moreover have "client_by_id (client_id c) w2 = Some (row_after e now2 c1 c1)"
    using pass_row [OF d1 in1, of e tr2 now2] assms(10,11) by simp
  ultimately have last: "map_option lastReminderAt (client_by_id (client_id c) w2) = Some (Some now1)"
    by simp
  show ?thesis
    using first s1 s2 no last pass_outbox [of e tr2 now2 w1] assms(10)
    by (simp add: attempted_eq)
qed

theorem second_pass_within_24h_sends_no_reminder_witness:
  "attempted demo_env transport_down 2419140000 demo_active = [reminder_mail demo_env demo_active 3]
   \<and> attempted demo_env transport_down 2419500000 (demo_active\<lparr>lastReminderAt := Some 2419140000\<rparr>) = []
   \<and> map_option lastReminderAt
        (client_by_id ''c1''
           (snd (subscriptionCheck demo_env transport_down 2419500000
              (snd (subscriptionCheck demo_env transport_down 2419140000 demo_world))))) =
       Some (Some 2419140000)"
proof -
  have h1: "distinct (map client_id (clients demo_world))"
    by (simp add: demo_world_def demo_active_def demo_paused_def)
  have h2: "demo_active \<in> set (clients demo_world)"
    by (simp add: demo_world_def)
  have h3: "status demo_active = ''ACTIVE''"
    by (simp add: demo_active_def)
  have h4: "getDaysLeft 2419140000 (dueAt demo_active) = Some 3"
    by (simp add: demo_active_def getDaysLeft_def msPerDay_def)
  have h5: "(0::int) < 3" and h6: "3 \<le> REMIND_DAYS_BEFORE demo_env"
    by (simp_all add: demo_env_def)
  have h7: "\<not> already 2419140000 demo_active"
    by (simp add: already_def demo_active_def)
  have h8: "(2419500000::int) - 2419140000 < 24 * 60 * 60 * 1000"
    by simp
  have later: "the (getDaysLeft 2419500000 (dueAt demo_active)) = 2"
    by (simp add: demo_active_def getDaysLeft_def msPerDay_def)
  have i: "client_id demo_active = ''c1''"
    by (simp add: demo_active_def)
  from second_pass_within_24h_sends_no_reminder
    [OF h1 h2 h3 h4 h5 h6 h7 h8 refl refl refl, of transport_down transport_down]
  show ?thesis
    unfolding later i by simp
qed

text \<open>
  C4. \<open>getDaysLeft\<close> is the quotient of \<open>dueAt - now\<close> by one day, rounded up. A due date
  18 hours ahead gives 1, and the reminder then sent has the subject
  \<open>Payment Reminder: 1 day(s) left\<close>.
\<close>

theorem days_left_rounds_up:
  "getDaysLeft now (Some d) = Some \<lceil>real_of_int (d - now) / real_of_int msPerDay\<rceil>
   \<and> getDaysLeft now (Some (now + 18 * 60 * 60 * 1000)) = Some 1
   \<and> subject (reminder_mail e c 1) = ''Payment Reminder: 1 day(s) left''
   \<and> (status c = ''ACTIVE'' \<and> dueAt c = Some (now + 18 * 60 * 60 * 1000) \<and> 1 \<le> REMIND_DAYS_BEFORE e
        \<and> \<not> already now c
      \<longrightarrow> attempted e tr now c = [reminder_mail e c 1])"
proof -
  have "\<lceil>real_of_int (d - now) / real_of_int msPerDay\<rceil> = - (- (d - now) div msPerDay)"
    by (rule ceiling_divide_eq_div)
  then have a: "getDaysLeft now (Some d) = Some \<lceil>real_of_int (d - now) / real_of_int msPerDay\<rceil>"
    by (simp add: getDaysLeft_Some)
  have b: "getDaysLeft now (Some (now + 18 * 60 * 60 * 1000)) = Some 1"
    by (simp add: getDaysLeft_Some msPerDay_def)
  have "digits 1 = ''1''" by code_simp
  then have c: "subject (reminder_mail e c 1) = ''Payment Reminder: 1 day(s) left''"
    by (simp add: reminder_mail_def num_str_def)
  have "attempted e tr now c = [reminder_mail e c 1]"
    if "status c = ''ACTIVE''" "dueAt c = Some (now + 18 * 60 * 60 * 1000)" "1 \<le> REMIND_DAYS_BEFORE e"
       "\<not> already now c"
    using that b by (simp add: attempted_eq row_sends_def)
  with a b c show ?thesis by blast
qed

theorem days_left_rounds_up_witness:
  "getDaysLeft 2527200000 (dueAt demo_active) = Some 1
   \<and> attempted demo_env transport_down 2527200000 demo_active = [reminder_mail demo_env demo_active 1]
   \<and> subject (reminder_mail demo_env demo_active 1) = ''Payment Reminder: 1 day(s) left''"
  using days_left_rounds_up [of 2527200000 2592000000 demo_env demo_active transport_down]
  by (simp add: demo_active_def demo_env_def already_def msPerDay_def)

subsection \<open>Sending never throws\<close>

text \<open>
  C7. \<open>sendEmail\<close> returns a result for every input: \<open>ok = false\<close> when the mail settings
  are missing and when the transport throws. Hence a pass of the checker always runs to its
  end, and the rows it writes and the sends it attempts are the same whatever the transport
  does.
\<close>

theorem sendEmail_never_throws:
  "(\<exists>r. sendEmail e tr m w = (Inr r, w\<lparr>outbox := outbox w @ [(m, r)]\<rparr>)
        \<and> (\<not> smtpReady e \<longrightarrow> r = \<lparr>ok = False, error = None\<rparr>)
        \<and> (smtpReady e \<and> tr (length (outbox w)) \<noteq> None \<longrightarrow> \<not> ok r \<and> error r \<noteq> None))
   \<and> fst (subscriptionCheck e tr now w) = Inr ()
   \<and> clients (snd (subscriptionCheck e tr now w)) = clients (snd (subscriptionCheck e tr' now w))
   \<and> map fst (outbox (snd (subscriptionCheck e tr now w))) =
       map fst (outbox (snd (subscriptionCheck e tr' now w)))"
proof -
  have "\<exists>r. sendEmail e tr m w = (Inr r, w\<lparr>outbox := outbox w @ [(m, r)]\<rparr>)
        \<and> (\<not> smtpReady e \<longrightarrow> r = \<lparr>ok = False, error = None\<rparr>)
        \<and> (smtpReady e \<and> tr (length (outbox w)) \<noteq> None \<longrightarrow> \<not> ok r \<and> error r \<noteq> None)"
    by (auto simp: sendEmail_def sendEmail_try_def Let_def split: exn.splits)
  moreover have "clients (snd (subscriptionCheck e tr now w)) = clients (snd (subscriptionCheck e tr' now w))"
    by (simp add: subscriptionCheck_def forEach_check_clients)
  moreover have "map fst (outbox (snd (subscriptionCheck e tr now w))) =
       map fst (outbox (snd (subscriptionCheck e tr' now w)))"
    by (simp add: subscriptionCheck_def forEach_check_outbox)
  ultimately show ?thesis
    using pass_fst [of e tr now w] by blast
qed

theorem sendEmail_never_throws_witness:
  "smtpReady demo_env
   \<and> transport_down (length (outbox demo_world)) \<noteq> None
   \<and> sendEmail_try demo_env transport_down (expired_mail demo_env demo_active) demo_world =
       Inl (Error ''ECONNREFUSED'')
   \<and> fst (sendEmail demo_env transport_down (expired_mail demo_env demo_active) demo_world) =
       Inr \<lparr>ok = False, error = Some ''ECONNREFUSED''\<rparr>
   \<and> fst (subscriptionCheck demo_env transport_down 2600000000 demo_world) = Inr ()
   \<and> clients (snd (subscriptionCheck demo_env transport_down 2600000000 demo_world)) =
       clients (snd (subscriptionCheck demo_env (\<lambda>_. None) 2600000000 demo_world))"
proof -
  have ready: "smtpReady demo_env"
    by (simp add: smtpReady_def truthy_def demo_env_def)
  have down: "transport_down (length (outbox demo_world)) \<noteq> None"
    by (simp add: transport_down_def)
  have thrown: "sendEmail_try demo_env transport_down (expired_mail demo_env demo_active) demo_world =
      Inl (Error ''ECONNREFUSED'')"
    using ready by (simp add: sendEmail_try_def transport_down_def)
  have caught: "fst (sendEmail demo_env transport_down (expired_mail demo_env demo_active) demo_world) =
      Inr \<lparr>ok = False, error = Some ''ECONNREFUSED''\<rparr>"
    using thrown by (simp add: sendEmail_def Let_def)
  from sendEmail_never_throws [of demo_env transport_down "expired_mail demo_env demo_active" demo_world
      2600000000 "\<lambda>_. None"]
  have "fst (subscriptionCheck demo_env transport_down 2600000000 demo_world) = Inr ()
      \<and> clients (snd (subscriptionCheck demo_env transport_down 2600000000 demo_world)) =
          clients (snd (subscriptionCheck demo_env (\<lambda>_. None) 2600000000 demo_world))"
    by blast
  with ready down thrown caught show ?thesis by blast
qed

subsection \<open>The admin actions\<close>

lemma find_patched:
  assumes "find (\<lambda>r. client_id r = i) xs = Some c"
    and "\<And>r. client_id (patch r) = client_id r"
  shows "find (\<lambda>r. client_id r = i) (map (\<lambda>r. if client_id r = i then patch r else r) xs) = Some (patch c)"
proof -
  have "client_id c = i"
    using assms(1) by (auto simp: find_Some_iff)
  moreover have "find (\<lambda>r. client_id r = i) (map (\<lambda>r. if client_id r = i then patch r else r) xs) =
      map_option (\<lambda>r. if client_id r = i then patch r else r) (find (\<lambda>r. client_id r = i) xs)"
    by (rule find_map_id) (simp add: assms(2))
  ultimately show ?thesis using assms(1) by simp
qed

lemma mark_paid_found:
  assumes "client_by_id i w = Some c"
  shows "fst (mark_paid e tr now i w) = Inr (Redirect ''/admin'')
       \<and> clients (snd (mark_paid e tr now i w)) =
           map (\<lambda>r. if client_id r = i
                     then r\<lparr>status := ''ACTIVE'', startedAt := Some now,
                            dueAt := Some (addDays e now (PLAN_DAYS e)),
                            pausedAt := None, pauseReason := None\<rparr>
                     else r) (clients w)
       \<and> map fst (outbox (snd (mark_paid e tr now i w))) = map fst (outbox w) @ [reactivated_mail c]"
  using assms
  by (simp add: mark_paid_def io_bind_def io_return_def client_findUnique_id_def client_update_def
      sendEmail_def Let_def)

text \<open>
  C5, as the code has it. Marking an existing client as paid sets \<open>status = ACTIVE\<close>,
  \<open>startedAt = now\<close> and \<open>dueAt = addDays(now, PLAN_DAYS)\<close>, whatever the status and the
  due date were before: the new due date is computed from \<open>now\<close> alone, a reset and not an
  extension. \<open>addDays\<close> keeps the local time of day and moves the local date by
  \<open>PLAN_DAYS\<close> days: the result is \<open>now\<close> plus \<open>PLAN_DAYS\<close> times 24 hours, plus the zone
  offset at \<open>now\<close> minus the zone offset at the new local time. The two are equal, and the
  due date is exactly \<open>now\<close> plus \<open>PLAN_DAYS\<close> days of 24 hours, when no change of offset
  falls between them.
\<close>

theorem mark_paid_resets_due_date:
  assumes "client_by_id i w = Some c"
  shows "fst (mark_paid e tr now i w) = Inr (Redirect ''/admin'')
       \<and> client_by_id i (snd (mark_paid e tr now i w)) =
           Some (c\<lparr>status := ''ACTIVE'', startedAt := Some now,
                   dueAt := Some (addDays e now (PLAN_DAYS e)), pausedAt := None, pauseReason := None\<rparr>)
       \<and> addDays e now (PLAN_DAYS e) =
           now + PLAN_DAYS e * msPerDay
           + (LocalTZA_of_utc e now
              - LocalTZA_of_local e (now + LocalTZA_of_utc e now + PLAN_DAYS e * msPerDay))
       \<and> (LocalTZA_of_local e (now + LocalTZA_of_utc e now + PLAN_DAYS e * msPerDay) = LocalTZA_of_utc e now
            \<longrightarrow> addDays e now (PLAN_DAYS e) = now + PLAN_DAYS e * msPerDay)"
proof -
  note m = mark_paid_found [OF assms, of e tr now]
  have "find (\<lambda>r. client_id r = i) (clients w) = Some c"
    using assms by (simp add: client_by_id_def)
  then have "find (\<lambda>r. client_id r = i)
      (map (\<lambda>r. if client_id r = i
                 then r\<lparr>status := ''ACTIVE'', startedAt := Some now,
                        dueAt := Some (addDays e now (PLAN_DAYS e)),
                        pausedAt := None, pauseReason := None\<rparr>
                 else r) (clients w)) =
      Some (c\<lparr>status := ''ACTIVE'', startedAt := Some now,
              dueAt := Some (addDays e now (PLAN_DAYS e)), pausedAt := None, pauseReason := None\<rparr>)"
    by (rule find_patched) simp
  moreover have "addDays e now (PLAN_DAYS e) =
           now + PLAN_DAYS e * msPerDay
           + (LocalTZA_of_utc e now
              - LocalTZA_of_local e (now + LocalTZA_of_utc e now + PLAN_DAYS e * msPerDay))"
    by (simp add: addDays_def Let_def)
  ultimately show ?thesis
    by (simp add: m client_by_id_def)
qed

theorem mark_paid_resets_due_date_witness:
  "client_by_id ''c2'' (snd (mark_paid demo_env transport_down 5000000000 ''c2'' demo_world)) =
     Some (demo_paused\<lparr>status := ''ACTIVE'', startedAt := Some 5000000000,
             dueAt := Some 7592000000, pausedAt := None, pauseReason := None\<rparr>)
   \<and> dueAt demo_paused = Some 86400000"
proof -
  have f: "client_by_id ''c2'' demo_world = Some demo_paused"
    by (simp add: client_by_id_def demo_world_def demo_active_def demo_paused_def)
  have tz: "LocalTZA_of_local demo_env (5000000000 + LocalTZA_of_utc demo_env 5000000000
              + PLAN_DAYS demo_env * msPerDay) = LocalTZA_of_utc demo_env 5000000000"
    by (simp add: demo_env_def)
  have n: "5000000000 + PLAN_DAYS demo_env * msPerDay = 7592000000"
    by (simp add: demo_env_def msPerDay_def)
  have d: "dueAt demo_paused = Some 86400000"
    by (simp add: demo_paused_def)
  from mark_paid_resets_due_date [OF f, of demo_env transport_down 5000000000] tz n d
  show ?thesis by simp
qed

text \<open>
  C5, as the claim has it, fails: on the New York host, a client marked as paid on
  15 October 2026 at 12:00 UTC is due 30 days and one hour later, not 30 days of 24 hours
  later.
\<close>

theorem mark_paid_due_date_not_exactly_plan_days:
  "PLAN_DAYS ny_env = 30
   \<and> map_option dueAt
        (client_by_id ''c2'' (snd (mark_paid ny_env transport_down 1792065600000 ''c2'' demo_world))) =
       Some (Some (1792065600000 + 30 * msPerDay + 3600000))
   \<and> map_option dueAt
        (client_by_id ''c2'' (snd (mark_paid ny_env transport_down 1792065600000 ''c2'' demo_world))) \<noteq>
       Some (Some (1792065600000 + PLAN_DAYS ny_env * msPerDay))"
proof -
  have f: "client_by_id ''c2'' demo_world = Some demo_paused"
    by (simp add: client_by_id_def demo_world_def demo_active_def demo_paused_def)
  have p: "PLAN_DAYS ny_env = 30"
    by (simp add: ny_env_def demo_env_def)
  have a: "addDays ny_env 1792065600000 (PLAN_DAYS ny_env) = 1792065600000 + 30 * msPerDay + 3600000"
    by (simp add: addDays_def Let_def ny_env_def demo_env_def msPerDay_def)
  have "clients (snd (mark_paid ny_env transport_down 1792065600000 ''c2'' demo_world)) =
      map (\<lambda>r. if client_id r = ''c2''
                then r\<lparr>status := ''ACTIVE'', startedAt := Some 1792065600000,
                       dueAt := Some (addDays ny_env 1792065600000 (PLAN_DAYS ny_env)),
                       pausedAt := None, pauseReason := None\<rparr>
                else r) (clients demo_world)"
    using mark_paid_found [OF f, of ny_env transport_down 1792065600000] by simp
  then have eq: "map_option dueAt
        (client_by_id ''c2'' (snd (mark_paid ny_env transport_down 1792065600000 ''c2'' demo_world))) =
       Some (Some (1792065600000 + 30 * msPerDay + 3600000))"
    unfolding a by (simp add: client_by_id_def demo_world_def demo_active_def demo_paused_def)
  show ?thesis
    unfolding eq by (simp add: p msPerDay_def)
qed

text \<open>
  C6. Marking as paid should clear \<open>pausedAt\<close>, \<open>pauseReason\<close> and \<open>lastReminderAt\<close>. The
  handler patches the first two only: on a client reminded at \<open>3600000\<close>, \<open>lastReminderAt\<close>
  is still \<open>3600000\<close> afterwards.
\<close>

theorem mark_paid_keeps_lastReminderAt:
  "lastReminderAt demo_paused = Some 3600000
   \<and> map_option lastReminderAt
        (client_by_id ''c2'' (snd (mark_paid demo_env transport_down 5000000000 ''c2'' demo_world))) =
       Some (Some 3600000)"
proof -
  have f: "client_by_id ''c2'' demo_world = Some demo_paused"
    by (simp add: client_by_id_def demo_world_def demo_active_def demo_paused_def)
  note mark_paid_found [OF f, of demo_env transport_down 5000000000]
  then show ?thesis
    by (simp add: client_by_id_def demo_world_def demo_active_def demo_paused_def)
qed

lemma pause_client_found:
  assumes "client_by_id i w = Some c"
  shows "fst (pause_client e tr now i w) = Inr (Redirect ''/admin'')
       \<and> clients (snd (pause_client e tr now i w)) =
           map (\<lambda>r. if client_id r = i
                     then r\<lparr>status := ''PAUSED'', pausedAt := Some now, pauseReason := Some ''manual''\<rparr>
                     else r) (clients w)
       \<and> map fst (outbox (snd (pause_client e tr now i w))) = map fst (outbox w) @ [paused_mail e c]"
  using assms
  by (simp add: pause_client_def io_bind_def io_return_def client_findUnique_id_def client_update_def
      sendEmail_def Let_def)

text \<open>
  C10. The manual pause of a client that is already \<open>PAUSED\<close> (say with reason
  \<open>expired\<close>) answers with the redirect, sets \<open>pausedAt = now\<close> and
  \<open>pauseReason = "manual"\<close>, and attempts one more pause mail to the client; the world
  after it differs from the world before.
\<close>

theorem pause_of_paused_client_restamps:
  assumes "client_by_id i w = Some c" and "status c = ''PAUSED''"
  shows "fst (pause_client e tr now i w) = Inr (Redirect ''/admin'')
       \<and> client_by_id i (snd (pause_client e tr now i w)) =
           Some (c\<lparr>status := ''PAUSED'', pausedAt := Some now, pauseReason := Some ''manual''\<rparr>)
       \<and> map fst (outbox (snd (pause_client e tr now i w))) = map fst (outbox w) @ [paused_mail e c]
       \<and> to (paused_mail e c) = email c
       \<and> snd (pause_client e tr now i w) \<noteq> w"
proof -
  note m = pause_client_found [OF assms(1), of e tr now]
  have "find (\<lambda>r. client_id r = i) (clients w) = Some c"
    using assms(1) by (simp add: client_by_id_def)
  then have "find (\<lambda>r. client_id r = i)
      (map (\<lambda>r. if client_id r = i
                 then r\<lparr>status := ''PAUSED'', pausedAt := Some now, pauseReason := Some ''manual''\<rparr>
                 else r) (clients w)) =
      Some (c\<lparr>status := ''PAUSED'', pausedAt := Some now, pauseReason := Some ''manual''\<rparr>)"
    by (rule find_patched) simp
  moreover have "snd (pause_client e tr now i w) \<noteq> w"
  proof
    assume "snd (pause_client e tr now i w) = w"
    then have "map fst (outbox (snd (pause_client e tr now i w))) = map fst (outbox w)" by simp
    then show False by (simp add: m)
  qed
  ultimately show ?thesis
    by (simp add: m client_by_id_def paused_mail_def)
qed

theorem pause_of_paused_client_restamps_witness:
  "pauseReason demo_paused = Some ''expired''
   \<and> client_by_id ''c2'' (snd (pause_client demo_env transport_down 100000000 ''c2'' demo_world)) =
       Some (demo_paused\<lparr>status := ''PAUSED'', pausedAt := Some 100000000, pauseReason := Some ''manual''\<rparr>)
   \<and> map fst (outbox (snd (pause_client demo_env transport_down 100000000 ''c2'' demo_world))) =
       [paused_mail demo_env demo_paused]"
proof -
  have f: "client_by_id ''c2'' demo_world = Some demo_paused"
    by (simp add: client_by_id_def demo_world_def demo_active_def demo_paused_def)
  have p: "status demo_paused = ''PAUSED''" and q: "pauseReason demo_paused = Some ''expired''"
    by (simp_all add: demo_paused_def)
  have o: "outbox demo_world = []"
    by (simp add: demo_world_def)
  from pause_of_paused_client_restamps [OF f p, of demo_env transport_down 100000000] q o
  show ?thesis by simp
qed

subsection \<open>Lead submission\<close>

text \<open>
  When every field read from the body is a string or falsy, the lead is stored, and it is
  routed exactly when the client is \<open>ACTIVE\<close>: to the client, to the operator if
  \<open>YOUR_NOTIFY_EMAIL\<close> is set, and back to the lead's address if the client has a booking
  link. For a \<open>PAUSED\<close> client nothing is sent.
\<close>

lemma or_empty_trim_text:
  "falsy v \<or> (\<exists>t. v = JString t) \<Longrightarrow>
     or_empty_trim v w = (Inr (trim (case v of JString t \<Rightarrow> t | _ \<Rightarrow> [])), w)"
  by (cases v) (auto simp: or_empty_trim_def falsy_def)

lemma lead_of_text_fields_stored_and_routed:
  assumes "client_by_code k w = Some c"
    and "\<forall>v \<in> set [form_name body, form_email body, form_phone body, form_message body].
           falsy v \<or> (\<exists>t. v = JString t)"
    and "ld = \<lparr>lead_clientId = client_id c,
               lead_name = trim (case form_name body of JString t \<Rightarrow> t | _ \<Rightarrow> []),
               lead_email = trim (case form_email body of JString t \<Rightarrow> t | _ \<Rightarrow> []),
               lead_phone = or_null (trim (case form_phone body of JString t \<Rightarrow> t | _ \<Rightarrow> [])),
               lead_message = or_null (trim (case form_message body of JString t \<Rightarrow> t | _ \<Rightarrow> []))\<rparr>"
    and "w' = snd (submit_lead e tr k body w)"
  shows "fst (submit_lead e tr k body w) = Inr (Render ''thanks'')
       \<and> leads w' = leads w @ [ld]
       \<and> clients w' = clients w
       \<and> map fst (outbox w') = map fst (outbox w) @
           (if status c = ''ACTIVE''
            then new_lead_mail c ld
                 # (if YOUR_NOTIFY_EMAIL e \<noteq> [] then [admin_lead_mail e c ld] else [])
                 @ (if truthy (bookingLink c) then [auto_reply_mail c ld] else [])
            else [])
       \<and> to (new_lead_mail c ld) = email c
       \<and> to (admin_lead_mail e c ld) = YOUR_NOTIFY_EMAIL e
       \<and> to (auto_reply_mail c ld) = lead_email ld
       \<and> (status c = ''PAUSED'' \<longrightarrow> outbox w' = outbox w)"
proof -
  have t: "or_empty_trim (form_name body) = (\<lambda>w. (Inr (trim (case form_name body of JString t \<Rightarrow> t | _ \<Rightarrow> [])), w))"
    "or_empty_trim (form_email body) = (\<lambda>w. (Inr (trim (case form_email body of JString t \<Rightarrow> t | _ \<Rightarrow> [])), w))"
    "or_empty_trim (form_phone body) = (\<lambda>w. (Inr (trim (case form_phone body of JString t \<Rightarrow> t | _ \<Rightarrow> [])), w))"
    "or_empty_trim (form_message body) = (\<lambda>w. (Inr (trim (case form_message body of JString t \<Rightarrow> t | _ \<Rightarrow> [])), w))"
    using assms(2) by (auto intro!: or_empty_trim_text)
  show ?thesis
    using assms(1,3,4)
    by (simp add: submit_lead_def t io_bind_def io_return_def io_when_def client_findUnique_code_def
        lead_create_def sendEmail_def Let_def new_lead_mail_def admin_lead_mail_def auto_reply_mail_def)
qed

text \<open>
  C8. A lead submitted under the code of an existing client should always be stored. The
  handler calls \<open>.trim()\<close> on each field before it writes the lead: with the body
  \<open>name[]=Dana\<close> the field \<open>name\<close> is an array, the call throws, and for the paused
  client \<open>bolt\<close> as for the active client \<open>acme\<close> no lead is stored and nothing is sent.
  With string fields (white space of any kind around the name) the lead is stored.
\<close>

theorem lead_not_stored_when_a_field_is_not_a_string:
  "client_by_code ''bolt'' demo_world = Some demo_paused
   \<and> submit_lead demo_env transport_down ''bolt'' (demo_form\<lparr>form_name := JArray [JString ''Dana'']\<rparr>)
        demo_world =
       (Inl (Error ''trim is not a function''), demo_world)
   \<and> client_by_code ''acme'' demo_world = Some demo_active
   \<and> submit_lead demo_env transport_down ''acme'' (demo_form\<lparr>form_name := JArray [JString ''Dana'']\<rparr>)
        demo_world =
       (Inl (Error ''trim is not a function''), demo_world)
   \<and> leads demo_world = []
   \<and> leads (snd (submit_lead demo_env transport_down ''bolt'' demo_form demo_world)) =
       [\<lparr>lead_clientId = ''c2'', lead_name = ''Dana'', lead_email = ''dana@example.org'',
         lead_phone = None, lead_message = Some ''Call me''\<rparr>]"
proof -
  have b: "client_by_code ''bolt'' demo_world = Some demo_paused"
    by (simp add: client_by_code_def demo_world_def demo_active_def demo_paused_def)
  have a: "client_by_code ''acme'' demo_world = Some demo_active"
    by (simp add: client_by_code_def demo_world_def demo_active_def demo_paused_def)
  have thrown: "or_empty_trim (JArray [JString ''Dana'']) w =
      (Inl (Error ''trim is not a function''), w)" for w
    by (simp add: or_empty_trim_def falsy_def)
  have lost: "submit_lead demo_env transport_down k (demo_form\<lparr>form_name := JArray [JString ''Dana'']\<rparr>)
        demo_world = (Inl (Error ''trim is not a function''), demo_world)"
    if "client_by_code k demo_world = Some c" for k c
    using that by (simp add: submit_lead_def io_bind_def client_findUnique_code_def thrown)
  have t: "trim ([CHR 0xC2, CHR 0xA0] @ '' Dana '' @ [CHR 0xE2, CHR 0x80, CHR 0xA8]) = ''Dana''"
       "trim ''dana@example.org'' = ''dana@example.org''"
       "trim [] = []"
       "trim ''Call me'' = ''Call me''"
    by code_simp+
  have fields: "\<forall>v \<in> set [form_name demo_form, form_email demo_form, form_phone demo_form,
                           form_message demo_form]. falsy v \<or> (\<exists>t. v = JString t)"
    by (simp add: demo_form_def falsy_def)
  have "leads (snd (submit_lead demo_env transport_down ''bolt'' demo_form demo_world)) =
       [\<lparr>lead_clientId = ''c2'', lead_name = ''Dana'', lead_email = ''dana@example.org'',
         lead_phone = None, lead_message = Some ''Call me''\<rparr>]"
    using lead_of_text_fields_stored_and_routed
      [where body = demo_form and e = demo_env and tr = transport_down, OF b fields refl refl]
    by (simp add: demo_form_def t [simplified] or_null_def demo_paused_def demo_world_def)
  with a b lost [OF a] lost [OF b] show ?thesis
    by (simp add: demo_world_def)
qed

subsection \<open>The derived code of an approved intake\<close>

lemma unique_code_free: "\<not> code_taken cs (unique_code cs b k n)"
proof (induction cs b k n rule: unique_code.induct)
  case (1 cs baseCode code' n)
  then show ?case by (subst unique_code.simps) simp
qed

lemma unique_code_shape:
  "unique_code cs b k n = k \<and> \<not> code_taken cs k
   \<or> (\<exists>m>n. unique_code cs b k n = b @ digits m \<and> code_taken cs k
          \<and> (\<forall>j. n < j \<and> j < m \<longrightarrow> code_taken cs (b @ digits j)))"
proof (induction cs b k n rule: unique_code.induct)
  case (1 cs baseCode code' n)
  show ?case
  proof (cases "code_taken cs code'")
    case False
    then show ?thesis by (subst unique_code.simps) simp
  next
    case True
    then have u: "unique_code cs baseCode code' n =
        unique_code cs baseCode (baseCode @ digits (n + 1)) (n + 1)"
      by (subst unique_code.simps) simp
    from 1 [OF True] consider
      (stop) "unique_code cs baseCode (baseCode @ digits (n + 1)) (n + 1) = baseCode @ digits (n + 1)"
        "\<not> code_taken cs (baseCode @ digits (n + 1))"
      | (go) m where "m > n + 1"
        "unique_code cs baseCode (baseCode @ digits (n + 1)) (n + 1) = baseCode @ digits m"
        "code_taken cs (baseCode @ digits (n + 1))"
        "\<forall>j. n + 1 < j \<and> j < m \<longrightarrow> code_taken cs (baseCode @ digits j)"
      by blast
    then show ?thesis
    proof cases
      case stop
      with True u show ?thesis by (intro disjI2 exI [of _ "n + 1"]) auto
    next
      case go
      have "code_taken cs (baseCode @ digits j)" if "n < j" "j < m" for j
      proof (cases "j = n + 1")
        case True
        with go(3) show ?thesis by simp
      next
        case False
        with that go(4) show ?thesis by simp
      qed
      with True u go(1,2) show ?thesis by (intro disjI2 exI [of _ m]) auto
    qed
  qed
qed

lemma toLowerCase_alnum_chars:
  "ch \<in> set (toLowerCase_alnum s) \<Longrightarrow>
     (97 \<le> (of_char ch :: nat) \<and> (of_char ch :: nat) \<le> 122) \<or> (48 \<le> (of_char ch :: nat) \<and> (of_char ch :: nat) \<le> 57)"
proof (induction s)
  case Nil
  then show ?case by simp
next
  case (Cons c s)
  then show ?case
    by (auto simp: Let_def split: if_splits)
qed

text \<open>
  C9. Approving an intake creates a client whose code comes from the business name:
  lowered, reduced to \<open>a\<close>--\<open>z\<close> and \<open>0\<close>--\<open>9\<close>, cut to 12 characters (\<open>client\<close> if
  nothing is left). If that base is free it is the code; otherwise the code is the base
  followed by the least number from 2 on that gives a free code. The code is never one that
  exists already. With \<open>acme\<close> taken and \<open>acme2\<close> free, the code is \<open>acme2\<close>.
\<close>

theorem approved_intake_gets_unique_derived_code:
  assumes "find (\<lambda>x. intake_id x = i) (clientIntakes s) = Some intake"
    and "derived = take 12 (toLowerCase_alnum (or_else (businessName intake) ''client''))"
    and "base = (if derived = [] then ''client'' else derived)"
    and "s' = snd (approve_intake e now new_id i s)"
  shows "\<exists>new. billing_clients s' = billing_clients s @ [new]
           \<and> bc_code new = unique_code (billing_clients s) base base 1
           \<and> \<not> code_taken (billing_clients s) (bc_code new)
           \<and> (\<not> code_taken (billing_clients s) base \<longrightarrow> bc_code new = base)
           \<and> (code_taken (billing_clients s) base \<and> \<not> code_taken (billing_clients s) (base @ ''2'')
                \<longrightarrow> bc_code new = base @ ''2'')
           \<and> (code_taken (billing_clients s) base \<longrightarrow>
                (\<exists>m>1. bc_code new = base @ digits m
                   \<and> (\<forall>j. 1 < j \<and> j < m \<longrightarrow> code_taken (billing_clients s) (base @ digits j))))
           \<and> length derived \<le> 12
           \<and> (\<forall>ch \<in> set derived. (97 \<le> (of_char ch :: nat) \<and> (of_char ch :: nat) \<le> 122)
                                \<or> (48 \<le> (of_char ch :: nat) \<and> (of_char ch :: nat) \<le> 57))
           \<and> map intake_status (filter (\<lambda>x. intake_id x = i) (clientIntakes s')) =
               map (\<lambda>_. ''approved'') (filter (\<lambda>x. intake_id x = i) (clientIntakes s))"
proof -
  let ?cs = "billing_clients s"
  let ?code = "unique_code ?cs base base 1"
  have two: "digits 2 = ''2''" by code_simp
  have iid: "intake_id intake = i"
    using assms(1) by (auto simp: find_Some_iff)
  obtain new where new: "billing_clients s' = ?cs @ [new]" "bc_code new = ?code"
    using assms by (simp add: approve_intake_def Let_def)
  have free: "\<not> code_taken ?cs ?code" by (rule unique_code_free)
  from unique_code_shape [of ?cs base base 1] have shape:
    "?code = base \<and> \<not> code_taken ?cs base
     \<or> (\<exists>m>1. ?code = base @ digits m \<and> code_taken ?cs base
            \<and> (\<forall>j. 1 < j \<and> j < m \<longrightarrow> code_taken ?cs (base @ digits j)))" .
  have a: "?code = base" if "\<not> code_taken ?cs base"
    using that shape by blast
  have b: "?code = base @ ''2''" if t: "code_taken ?cs base" and f: "\<not> code_taken ?cs (base @ ''2'')"
  proof -
    from shape t obtain m where m: "m > 1" "?code = base @ digits m"
      "\<forall>j. 1 < j \<and> j < m \<longrightarrow> code_taken ?cs (base @ digits j)" by blast
    have "m = 2"
    proof (rule ccontr)
      assume "m \<noteq> 2"
      with m(1) have "1 < (2::nat) \<and> 2 < m" by simp
      with m(3) have "code_taken ?cs (base @ digits 2)" by blast
      with f two show False by simp
    qed
    with m(2) two show ?thesis by simp
  qed
  have c: "\<exists>m>1. ?code = base @ digits m \<and> (\<forall>j. 1 < j \<and> j < m \<longrightarrow> code_taken ?cs (base @ digits j))"
    if "code_taken ?cs base"
    using that shape by blast
  have len: "length derived \<le> 12"
    using assms(2) by simp
  have chars: "\<forall>ch \<in> set derived. (97 \<le> (of_char ch :: nat) \<and> (of_char ch :: nat) \<le> 122)
                                \<or> (48 \<le> (of_char ch :: nat) \<and> (of_char ch :: nat) \<le> 57)"
    using assms(2) toLowerCase_alnum_chars by (metis in_set_takeD)
  have st: "map intake_status (filter (\<lambda>x. intake_id x = i) (clientIntakes s')) =
               map (\<lambda>_. ''approved'') (filter (\<lambda>x. intake_id x = i) (clientIntakes s))"
    using assms(1,4) iid
    by (simp add: approve_intake_def Let_def filter_map comp_def)
  show ?thesis
    using new free a b c len chars st by (intro exI [of _ new]) simp
qed


theorem approved_intake_gets_unique_derived_code_witness:
  "map bc_code (billing_clients (snd (approve_intake demo_env 5000000000 ''b2'' ''i1'' demo_store))) =
     [''acme'', ''acme2'']
   \<and> take 12 (toLowerCase_alnum ([CHR 0xC4, CHR 0xB0] @ ''stanbul Kebab'')) = ''istanbulkeba''
   \<and> take 12 (toLowerCase_alnum ([CHR 0xE2, CHR 0x84, CHR 0xAA] @ ''2 Labs'')) = ''k2labs''
   \<and> take 12 (toLowerCase_alnum (''Caf'' @ [CHR 0xC3, CHR 0x89] @ '' Zo'' @ [CHR 0xC3, CHR 0xAB] @ '' 24/7'')) =
       ''cafzo247''"
proof -
  let ?intake = "\<lparr>intake_id = ''i1'', businessName = Some ''Acme!'', contactName = Some ''Dana'',
          intake_email = ''second@acme.example'', intake_phone = None, intake_bookingUrl = None,
          intake_notes = None, intake_status = ''new''\<rparr>"
  have f: "find (\<lambda>x. intake_id x = ''i1'') (clientIntakes demo_store) = Some ?intake"
    by (simp add: demo_store_def)
  have d: "take 12 (toLowerCase_alnum (or_else (businessName ?intake) ''client'')) = ''acme''"
    by code_simp
  have t: "code_taken (billing_clients demo_store) ''acme''"
    and n: "\<not> code_taken (billing_clients demo_store) (''acme'' @ ''2'')"
    by (simp_all add: code_taken_def demo_store_def)
  have c: "map bc_code (billing_clients demo_store) = [''acme'']"
    by (simp add: demo_store_def)
  have others: "take 12 (toLowerCase_alnum ([CHR 0xC4, CHR 0xB0] @ ''stanbul Kebab'')) = ''istanbulkeba''"
    "take 12 (toLowerCase_alnum ([CHR 0xE2, CHR 0x84, CHR 0xAA] @ ''2 Labs'')) = ''k2labs''"
    "take 12 (toLowerCase_alnum (''Caf'' @ [CHR 0xC3, CHR 0x89] @ '' Zo'' @ [CHR 0xC3, CHR 0xAB] @ '' 24/7'')) =
       ''cafzo247''"
    by code_simp+
  from approved_intake_gets_unique_derived_code
    [where e = demo_env and now = 5000000000 and new_id = "''b2''", OF f refl refl refl]
  obtain new where "billing_clients (snd (approve_intake demo_env 5000000000 ''b2'' ''i1'' demo_store)) =
      billing_clients demo_store @ [new]" "bc_code new = ''acme'' @ ''2''"
    unfolding d using t n by auto
  with c others show ?thesis by simp
qed

end
